theory Spec2Isabelle
  imports Complex_Main
begin

section \<open>Python values\<close>

text \<open>
  The values that travel through \<^verbatim>\<open>jobs.json\<close> and \<^verbatim>\<open>indicators.json\<close>: what
  \<^verbatim>\<open>json.loads\<close> returns and \<^verbatim>\<open>json.dumps\<close> accepts. A dict keeps its insertion
  order, so it is an association list.
\<close>

datatype json =
    JNull
  | JBool bool
  | JInt int
  | JFloat real
  | JStr string
  | JArr "json list"
  | JObj "(string \<times> json) list"

text \<open>The exceptions the modelled code can raise. \<open>Unmodelled\<close> is none of them: it
  marks a call whose outcome this development leaves open (a pandas operation on a
  column of a dtype it does not follow), and no handler catches it.\<close>

datatype exn =
    KeyError
  | TypeError
  | ValueError
  | IndexError
  | AttributeError
  | NotImplementedError
  | FileNotFoundError
  | JSONDecodeError
  | OperationalError
  | Unmodelled

text \<open>\<^verbatim>\<open>d[k]\<close>: a missing key raises KeyError, a subscript on anything but a dict
  with a string key raises TypeError.\<close>

fun getitem :: "json \<Rightarrow> string \<Rightarrow> exn + json" where
  "getitem (JObj kvs) k = (case map_of kvs k of None \<Rightarrow> Inl KeyError | Some v \<Rightarrow> Inr v)"
| "getitem _ k = Inl TypeError"

text \<open>Sequencing of computations that may raise.\<close>

definition bindE :: "exn + 'a \<Rightarrow> ('a \<Rightarrow> exn + 'b) \<Rightarrow> exn + 'b" where
  "bindE m f = (case m of Inl e \<Rightarrow> Inl e | Inr v \<Rightarrow> f v)"

text \<open>A JSON file on disk: absent, present with text that \<^verbatim>\<open>json.loads\<close> rejects (the
  empty file is one), or present with a document. \<^verbatim>\<open>json.dumps\<close> followed by
  \<^verbatim>\<open>json.loads\<close> is taken to give the document back.\<close>

datatype json_file = Missing | Unparsable | Document json

section \<open>tasks.py\<close>

subsection \<open>BackgroundJobData\<close>

text \<open>Python checks none of the field annotations, so every field holds any value.\<close>

record BackgroundJobData =
  timestamp :: json
  uuid :: json
  table :: json
  id1 :: json
  id2 :: json
  date1 :: json
  date2 :: json
  data :: json

text \<open>What \<^verbatim>\<open>__init__\<close> reads from its surroundings: the clock and a fresh uuid.\<close>

record pyenv =
  utcnow :: int
  uuid4 :: string

definition BackgroundJobData_init ::
  "pyenv \<Rightarrow> json \<Rightarrow> json \<Rightarrow> json \<Rightarrow> json \<Rightarrow> json \<Rightarrow> json \<Rightarrow> json \<Rightarrow> json \<Rightarrow> BackgroundJobData" where
  "BackgroundJobData_init env tbl i1 i2 d1 d2 dat ts uid =
     \<lparr> timestamp = (if ts \<noteq> JNull then ts else JInt (utcnow env)),
       uuid = (if uid \<noteq> JNull then uid else JStr (uuid4 env)),
       table = tbl, id1 = i1, id2 = i2, date1 = d1, date2 = d2, data = dat \<rparr>"

text \<open>\<^verbatim>\<open>fromDict\<close>: the keyword arguments are evaluated in the order written.\<close>

definition fromDict :: "pyenv \<Rightarrow> json \<Rightarrow> exn + BackgroundJobData" where
  "fromDict env dictIn =
     bindE (getitem dictIn ''table'') (\<lambda>tbl.
     bindE (getitem dictIn ''id1'') (\<lambda>i1.
     bindE (getitem dictIn ''id2'') (\<lambda>i2.
     bindE (getitem dictIn ''date1'') (\<lambda>d1.
     bindE (getitem dictIn ''date2'') (\<lambda>d2.
     bindE (getitem dictIn ''data'') (\<lambda>dat.
     bindE (getitem dictIn ''timestamp'') (\<lambda>ts.
     bindE (getitem dictIn ''uuid'') (\<lambda>uid.
       Inr (BackgroundJobData_init env tbl i1 i2 d1 d2 dat ts uid)))))))))"

text \<open>\<^verbatim>\<open>dataclasses.asdict\<close>, which \<^verbatim>\<open>EnhancedJSONEncoder.default\<close> applies to a job:
  the fields in the order of their annotations.\<close>

definition asdict :: "BackgroundJobData \<Rightarrow> json" where
  "asdict j = JObj
     [(''timestamp'', timestamp j), (''uuid'', uuid j), (''table'', table j),
      (''id1'', id1 j), (''id2'', id2 j), (''date1'', date1 j), (''date2'', date2 j),
      (''data'', data j)]"

subsection \<open>utils.parseInt\<close>

text \<open>The environment hands over a string or None. Python's \<^verbatim>\<open>int(str)\<close> is the
  parameter \<open>py_int\<close>: None where it raises ValueError.\<close>

definition parseInt :: "(string \<Rightarrow> int option) \<Rightarrow> string option \<Rightarrow> int \<Rightarrow> int" where
  "parseInt py_int v dflt =
     (case v of
        None \<Rightarrow> dflt
      | Some s \<Rightarrow> (case py_int s of Some n \<Rightarrow> n | None \<Rightarrow> dflt))"

subsection \<open>TaskHandler\<close>

record TaskHandler =
  parallelProcesses :: int
  jobQueue :: "BackgroundJobData list"
  backgroundTasks :: "nat set"
  shutdownRequest :: bool
  task_cancelled :: bool
  indicatorConfig :: json

text \<open>What lies outside the handler object: the backup file, the live child processes
  (\<^verbatim>\<open>multiprocessing.active_children()\<close>), the security ids workers were started for, and
  the calls of \<^verbatim>\<open>asyncio.sleep(1)\<close> made by \<^verbatim>\<open>shutdown\<close>.\<close>

record os_state =
  jobs_json :: json_file
  active_children :: nat
  started :: "json list"
  polls :: nat

text \<open>\<^verbatim>\<open>int(multiprocessing.cpu_count()/2.0)\<close>: \<^verbatim>\<open>cpu_count\<close> returns a positive count or
  raises NotImplementedError (None); \<^verbatim>\<open>int\<close> truncates the quotient.\<close>

definition default_processes :: "nat option \<Rightarrow> int" where
  "default_processes cpu_count =
     (case cpu_count of None \<Rightarrow> 1 | Some n \<Rightarrow> int n div 2)"

text \<open>\<^verbatim>\<open>__init__\<close>: the override is \<^verbatim>\<open>os.environ.get('parallelProcesses')\<close>; reading
  \<^verbatim>\<open>indicators.json\<close> stands outside any try.\<close>

definition TaskHandler_init ::
  "(string \<Rightarrow> int option) \<Rightarrow> nat option \<Rightarrow> string option \<Rightarrow> json_file \<Rightarrow> exn + TaskHandler" where
  "TaskHandler_init py_int cpu_count override indicators_json =
     (case indicators_json of
        Missing \<Rightarrow> Inl FileNotFoundError
      | Unparsable \<Rightarrow> Inl JSONDecodeError
      | Document cfg \<Rightarrow>
          Inr \<lparr> parallelProcesses = parseInt py_int override (default_processes cpu_count),
                jobQueue = [], backgroundTasks = {}, shutdownRequest = False,
                task_cancelled = False, indicatorConfig = cfg \<rparr>)"

text \<open>\<^verbatim>\<open>addJob\<close>: \<^verbatim>\<open>put\<close> on the unbounded \<^verbatim>\<open>asyncio.Queue\<close> appends at the tail.\<close>

definition addJob :: "BackgroundJobData \<Rightarrow> TaskHandler \<Rightarrow> TaskHandler" where
  "addJob jobData h = h\<lparr>jobQueue := jobQueue h @ [jobData]\<rparr>"

text \<open>The inner loop of \<^verbatim>\<open>scheduleTasks\<close>: while fewer children are alive than
  \<^verbatim>\<open>parallelProcesses\<close> and the queue is not empty, take the head job; a job for the
  table \<^verbatim>\<open>quotes\<close> starts a process with \<^verbatim>\<open>id1\<close>, any other is logged and dropped. No
  child exits while the loop runs.\<close>

fun dispatch :: "int \<Rightarrow> BackgroundJobData list \<Rightarrow> os_state \<Rightarrow> BackgroundJobData list \<times> os_state" where
  "dispatch p [] w = ([], w)"
| "dispatch p (jobData # q) w =
     (if int (active_children w) < p then
        (if table jobData = JStr ''quotes''
         then dispatch p q
                (w\<lparr>active_children := Suc (active_children w),
                   started := started w @ [id1 jobData]\<rparr>)
         else dispatch p q w)
      else (jobData # q, w))"

text \<open>One round of the outer loop of \<^verbatim>\<open>scheduleTasks\<close>, which runs while
  \<^verbatim>\<open>shutdownRequest\<close> is False and the task is not cancelled.\<close>

definition scheduleTasks_tick :: "TaskHandler \<Rightarrow> os_state \<Rightarrow> TaskHandler \<times> os_state" where
  "scheduleTasks_tick h w =
     (if shutdownRequest h \<or> task_cancelled h then (h, w)
      else (case dispatch (parallelProcesses h) (jobQueue h) w of
              (q, w') \<Rightarrow> (h\<lparr>jobQueue := q\<rparr>, w')))"

text \<open>The wait of \<^verbatim>\<open>shutdown\<close>: \<^verbatim>\<open>while len(self.backgroundTasks) > 0\<close>, sleeping one
  second per round. Nothing in the class adds to or removes from \<^verbatim>\<open>backgroundTasks\<close>, so
  the set is the same in every round; the fuel bounds the rounds, and None is a wait
  that has not ended.\<close>

fun wait_tasks :: "nat \<Rightarrow> nat set \<Rightarrow> os_state \<Rightarrow> os_state option" where
  "wait_tasks 0 bt w = (if bt \<noteq> {} then None else Some w)"
| "wait_tasks (Suc fuel) bt w =
     (if bt \<noteq> {} then wait_tasks fuel bt (w\<lparr>polls := Suc (polls w)\<rparr>) else Some w)"

text \<open>The drain of \<^verbatim>\<open>shutdown\<close>: \<^verbatim>\<open>while qsize() > 0: jobs.append(get())\<close>.\<close>

fun drain :: "BackgroundJobData list \<Rightarrow> BackgroundJobData list \<Rightarrow> BackgroundJobData list \<times> BackgroundJobData list" where
  "drain [] jobs = ([], jobs)"
| "drain (j # q) jobs = drain q (jobs @ [j])"

text \<open>\<^verbatim>\<open>shutdown\<close>: the flag, the cancel, the wait, then the drain and the dump, which
  replaces the content of \<^verbatim>\<open>jobs.json\<close>.\<close>

definition shutdown :: "nat \<Rightarrow> TaskHandler \<Rightarrow> os_state \<Rightarrow> (TaskHandler \<times> os_state) option" where
  "shutdown fuel h w =
     (let h1 = h\<lparr>shutdownRequest := True, task_cancelled := True\<rparr> in
      case wait_tasks fuel (backgroundTasks h1) w of
        None \<Rightarrow> None
      | Some w1 \<Rightarrow>
          (case drain (jobQueue h1) [] of
             (q, jobs) \<Rightarrow>
               Some (h1\<lparr>jobQueue := q\<rparr>,
                     w1\<lparr>jobs_json := Document (JArr (map asdict jobs))\<rparr>)))"

text \<open>The loop of \<^verbatim>\<open>loadJobs\<close> over the backup list. An entry \<^verbatim>\<open>fromDict\<close> rejects ends
  the loop with the exception; the jobs put before stay in the queue.\<close>

fun load_backup :: "pyenv \<Rightarrow> json list \<Rightarrow> BackgroundJobData list \<Rightarrow> exn option \<times> BackgroundJobData list" where
  "load_backup env [] q = (None, q)"
| "load_backup env (job # backup) q =
     (case fromDict env job of
        Inl e \<Rightarrow> (Some e, q)
      | Inr jobData \<Rightarrow> load_backup env backup (q @ [jobData]))"

text \<open>\<^verbatim>\<open>loadJobs\<close>: every exception is caught and logged; the result is the bool
  \<^verbatim>\<open>returnValue\<close>, set to True only after the whole list is loaded.\<close>

definition loadJobs :: "pyenv \<Rightarrow> TaskHandler \<Rightarrow> json_file \<Rightarrow> bool \<times> TaskHandler" where
  "loadJobs env h f =
     (case f of
        Missing \<Rightarrow> (False, h)
      | Unparsable \<Rightarrow> (False, h)
      | Document backup \<Rightarrow>
          (case backup of
             JArr items \<Rightarrow>
               (if length items > 0 then
                  (case load_backup env items (jobQueue h) of
                     (None, q) \<Rightarrow> (True, h\<lparr>jobQueue := q\<rparr>)
                   | (Some e, q) \<Rightarrow> (False, h\<lparr>jobQueue := q\<rparr>))
                else (False, h))
           | _ \<Rightarrow> (False, h)))"

text \<open>The job \<^verbatim>\<open>resolve_updateSecurityQuotes\<close> queues after a quotes update:
  \<^verbatim>\<open>BackgroundJobData('quotes', selector.id)\<close>, every other argument at its default.\<close>

definition quotes_job :: "pyenv \<Rightarrow> int \<Rightarrow> BackgroundJobData" where
  "quotes_job env i =
     BackgroundJobData_init env (JStr ''quotes'') (JInt i) JNull JNull JNull (JObj []) JNull JNull"

section \<open>indicator\_factory.py: parameters\<close>

text \<open>A parameter handed to an indicator function: a \<^verbatim>\<open>Decimal\<close> made by
  \<^verbatim>\<open>parseParameters\<close>, or the value as the configuration file gave it.\<close>

datatype pyval = Decimal int | Plain json

text \<open>\<^verbatim>\<open>str.isdecimal\<close> on ASCII text: at least one character, all of them digits.\<close>

definition isdecimal :: "string \<Rightarrow> bool" where
  "isdecimal s = (s \<noteq> [] \<and> list_all (\<lambda>c. c \<in> set ''0123456789'') s)"

text \<open>The integer a string of digits denotes, as \<^verbatim>\<open>Decimal(str)\<close> reads it.\<close>

definition digit_value :: "char \<Rightarrow> int" where
  "digit_value c = int (of_char c) - 48"

definition Decimal_of_str :: "string \<Rightarrow> int" where
  "Decimal_of_str s = foldl (\<lambda>n c. 10 * n + digit_value c) 0 s"

definition parseValue :: "json \<Rightarrow> pyval" where
  "parseValue v =
     (case v of
        JStr s \<Rightarrow> (if isdecimal s then Decimal (Decimal_of_str s) else Plain v)
      | _ \<Rightarrow> Plain v)"

text \<open>\<^verbatim>\<open>parseParameters\<close>: one output entry per key of the input dict, in its order;
  \<^verbatim>\<open>input.keys()\<close> on a value that is no dict raises AttributeError.\<close>

fun parseParameters :: "json \<Rightarrow> exn + (string \<times> pyval) list" where
  "parseParameters (JObj kvs) = Inr (map (\<lambda>(k, v). (k, parseValue v)) kvs)"
| "parseParameters _ = Inl AttributeError"

section \<open>Floating-point values\<close>

text \<open>A float64 as the library computes with it, without rounding: a real number, an
  infinity or NaN. The sign of a zero is not kept.\<close>

datatype fl = Fin real | PInf | NInf | NaN

fun fneg :: "fl \<Rightarrow> fl" where
  "fneg (Fin a) = Fin (- a)"
| "fneg PInf = NInf"
| "fneg NInf = PInf"
| "fneg NaN = NaN"

fun fadd :: "fl \<Rightarrow> fl \<Rightarrow> fl" where
  "fadd NaN _ = NaN"
| "fadd _ NaN = NaN"
| "fadd (Fin a) (Fin b) = Fin (a + b)"
| "fadd PInf NInf = NaN"
| "fadd NInf PInf = NaN"
| "fadd PInf _ = PInf"
| "fadd NInf _ = NInf"
| "fadd _ PInf = PInf"
| "fadd _ NInf = NInf"

definition fsub :: "fl \<Rightarrow> fl \<Rightarrow> fl" where
  "fsub a b = fadd a (fneg b)"

text \<open>The sign of an infinite product or quotient.\<close>

definition signed_inf :: "bool \<Rightarrow> fl" where
  "signed_inf positive = (if positive then PInf else NInf)"

fun fmul :: "fl \<Rightarrow> fl \<Rightarrow> fl" where
  "fmul NaN _ = NaN"
| "fmul _ NaN = NaN"
| "fmul (Fin a) (Fin b) = Fin (a * b)"
| "fmul (Fin a) PInf = (if a = 0 then NaN else signed_inf (0 < a))"
| "fmul (Fin a) NInf = (if a = 0 then NaN else signed_inf (a < 0))"
| "fmul PInf (Fin b) = (if b = 0 then NaN else signed_inf (0 < b))"
| "fmul NInf (Fin b) = (if b = 0 then NaN else signed_inf (b < 0))"
| "fmul PInf PInf = PInf"
| "fmul NInf NInf = PInf"
| "fmul PInf NInf = NInf"
| "fmul NInf PInf = NInf"

text \<open>Division as numpy and pandas do it on float arrays: a division by zero gives an
  infinity, or NaN for 0/0, and raises nothing.\<close>

fun fdiv :: "fl \<Rightarrow> fl \<Rightarrow> fl" where
  "fdiv NaN _ = NaN"
| "fdiv _ NaN = NaN"
| "fdiv (Fin a) (Fin b) =
     (if b = 0 then (if a = 0 then NaN else signed_inf (0 < a)) else Fin (a / b))"
| "fdiv (Fin a) _ = Fin 0"
| "fdiv PInf (Fin b) = signed_inf (0 \<le> b)"
| "fdiv NInf (Fin b) = signed_inf (b < 0)"
| "fdiv _ _ = NaN"

text \<open>Comparisons: False as soon as one side is NaN.\<close>

fun flt :: "fl \<Rightarrow> fl \<Rightarrow> bool" where
  "flt NaN _ = False"
| "flt _ NaN = False"
| "flt (Fin a) (Fin b) = (a < b)"
| "flt (Fin a) PInf = True"
| "flt NInf (Fin b) = True"
| "flt NInf PInf = True"
| "flt _ _ = False"

definition fgt :: "fl \<Rightarrow> fl \<Rightarrow> bool" where
  "fgt a b = flt b a"

definition isfinite :: "fl \<Rightarrow> bool" where
  "isfinite x = (case x of Fin _ \<Rightarrow> True | _ \<Rightarrow> False)"

definition fl_of_int :: "int \<Rightarrow> fl" where
  "fl_of_int n = Fin (of_int n)"

section \<open>Series operations of pandas and numpy\<close>

text \<open>\<^verbatim>\<open>Series.diff()\<close> on a float column: NaN in the first row, then the difference to
  the row before.\<close>

fun diff_from :: "fl \<Rightarrow> fl list \<Rightarrow> fl list" where
  "diff_from prev [] = []"
| "diff_from prev (x # xs) = fsub x prev # diff_from x xs"

fun pd_diff :: "fl list \<Rightarrow> fl list" where
  "pd_diff [] = []"
| "pd_diff (x # xs) = NaN # diff_from x xs"

text \<open>\<^verbatim>\<open>Series.pct_change(fill_method=None)\<close>: the quotient by the row before, minus one.\<close>

fun pct_from :: "fl \<Rightarrow> fl list \<Rightarrow> fl list" where
  "pct_from prev [] = []"
| "pct_from prev (x # xs) = fsub (fdiv x prev) (Fin 1) # pct_from x xs"

fun pct_change :: "fl list \<Rightarrow> fl list" where
  "pct_change [] = []"
| "pct_change (x # xs) = NaN # pct_from x xs"

text \<open>\<^verbatim>\<open>Series.rolling(N).mean()\<close>: the mean of the last N rows where there are N and all
  are finite (an infinity counts as missing), NaN elsewhere; a window of 0 gives NaN in
  every row. A negative window raises ValueError before this is reached.\<close>

definition window_mean :: "nat \<Rightarrow> fl list \<Rightarrow> nat \<Rightarrow> fl" where
  "window_mean N xs i =
     (let w = take N (drop (Suc i - N) xs) in
      if 0 < N \<and> N \<le> Suc i \<and> list_all isfinite w
      then fdiv (foldl fadd (Fin 0) w) (Fin (real N))
      else NaN)"

definition rolling_mean :: "nat \<Rightarrow> fl list \<Rightarrow> fl list" where
  "rolling_mean N xs = map (window_mean N xs) [0..<length xs]"

text \<open>numpy indexing: a negative index counts from the end, an index out of range
  raises IndexError; a slice clips its bounds instead.\<close>

definition np_index :: "nat \<Rightarrow> int \<Rightarrow> exn + nat" where
  "np_index len i =
     (if 0 \<le> i \<and> i < int len then Inr (nat i)
      else if - int len \<le> i \<and> i < 0 then Inr (nat (int len + i))
      else Inl IndexError)"

definition slice_bound :: "nat \<Rightarrow> int \<Rightarrow> nat" where
  "slice_bound len k = (if k < 0 then nat (max 0 (int len + k)) else min (nat k) len)"

definition py_slice :: "'a list \<Rightarrow> int \<Rightarrow> int \<Rightarrow> 'a list" where
  "py_slice xs lo hi =
     take (slice_bound (length xs) hi - slice_bound (length xs) lo)
       (drop (slice_bound (length xs) lo) xs)"

text \<open>\<^verbatim>\<open>ndarray.mean()\<close>: the sum by the count, NaN for no element.\<close>

definition np_mean :: "fl list \<Rightarrow> fl" where
  "np_mean xs = fdiv (foldl fadd (Fin 0) xs) (Fin (real (length xs)))"

section \<open>Data frames\<close>

text \<open>A cell as Python sees it when a row is taken out of a frame.\<close>

datatype cell = CNone | CFloat fl | CBool bool | CInt int | CDate "int option"

text \<open>A column has one dtype: float64, bool, datetime64 (a day number, None for NaT) or
  object.\<close>

datatype column =
    Floats "fl list"
  | Bools "bool list"
  | Dates "int option list"
  | Objects "cell list"

text \<open>A frame: the row labels and the named columns in their order. The labels are
  the positions of a RangeIndex or the day numbers of a DatetimeIndex.\<close>

record frame =
  index :: "int list"
  columns :: "(string \<times> column) list"

definition len :: "frame \<Rightarrow> nat" where
  "len df = length (index df)"

definition get_col :: "frame \<Rightarrow> string \<Rightarrow> column option" where
  "get_col df k = map_of (columns df) k"

text \<open>\<^verbatim>\<open>df[k] = values\<close>: an existing column is replaced where it stands, a new one is
  put last. A dict takes a new value for a key the same way.\<close>

fun assign :: "string \<Rightarrow> 'a \<Rightarrow> (string \<times> 'a) list \<Rightarrow> (string \<times> 'a) list" where
  "assign k c [] = [(k, c)]"
| "assign k c ((k', c') # cols) =
     (if k' = k then (k, c) # cols else (k', c') # assign k c cols)"

definition set_col :: "string \<Rightarrow> column \<Rightarrow> frame \<Rightarrow> frame" where
  "set_col k c df = df\<lparr>columns := assign k c (columns df)\<rparr>"

text \<open>\<^verbatim>\<open>df[k] = None\<close>: an object column of None.\<close>

definition set_none :: "string \<Rightarrow> frame \<Rightarrow> frame" where
  "set_none k df = set_col k (Objects (replicate (len df) CNone)) df"

text \<open>\<^verbatim>\<open>del df[k]\<close> and \<^verbatim>\<open>df.drop([k], axis=1)\<close>: KeyError when there is no such
  column.\<close>

definition drop_col :: "string \<Rightarrow> frame \<Rightarrow> exn + frame" where
  "drop_col k df =
     (case get_col df k of
        None \<Rightarrow> Inl KeyError
      | Some _ \<Rightarrow> Inr (df\<lparr>columns := filter (\<lambda>(k', c). k' \<noteq> k) (columns df)\<rparr>))"

section \<open>indicators.py\<close>

text \<open>What an indicator function hands back: the success flag, the frame it returns
  and the names of the columns it adds; besides, the frame object it was called on as
  the call leaves it, since the functions write into their argument.\<close>

record ind_result =
  r_success :: bool
  r_frame :: frame
  r_keys :: "string list"
  r_arg :: frame

text \<open>\<^verbatim>\<open>except Exception\<close>: every exception is handled.\<close>

definition catch :: "exn + 'a \<Rightarrow> (exn \<Rightarrow> exn + 'a) \<Rightarrow> exn + 'a" where
  "catch m handler =
     (case m of
        Inl Unmodelled \<Rightarrow> Inl Unmodelled
      | Inl e \<Rightarrow> handler e
      | Inr v \<Rightarrow> Inr v)"

text \<open>Calling \<^verbatim>\<open>f(df, **params)\<close>: TypeError for a keyword the function does not have
  and for a parameter without default that is not given.\<close>

definition bind_kwargs :: "string list \<Rightarrow> string list \<Rightarrow> (string \<times> pyval) list \<Rightarrow> exn + unit" where
  "bind_kwargs allowed required params =
     (if list_all (\<lambda>k. k \<in> set allowed) (map fst params) \<and>
         list_all (\<lambda>k. k \<in> set (map fst params)) required
      then Inr () else Inl TypeError)"

definition kwarg :: "(string \<times> pyval) list \<Rightarrow> string \<Rightarrow> pyval \<Rightarrow> pyval" where
  "kwarg params k dflt = (case map_of params k of Some v \<Rightarrow> v | None \<Rightarrow> dflt)"

text \<open>\<^verbatim>\<open>int(period)\<close>: a float is cut towards zero, a string is read by \<open>py_int\<close>.\<close>

definition truncate :: "real \<Rightarrow> int" where
  "truncate r = (if 0 \<le> r then \<lfloor>r\<rfloor> else \<lceil>r\<rceil>)"

definition int_of_pyval :: "(string \<Rightarrow> int option) \<Rightarrow> pyval \<Rightarrow> exn + int" where
  "int_of_pyval py_int v =
     (case v of
        Decimal n \<Rightarrow> Inr n
      | Plain (JInt n) \<Rightarrow> Inr n
      | Plain (JBool b) \<Rightarrow> Inr (if b then 1 else 0)
      | Plain (JFloat r) \<Rightarrow> Inr (truncate r)
      | Plain (JStr s) \<Rightarrow> (case py_int s of Some n \<Rightarrow> Inr n | None \<Rightarrow> Inl ValueError)
      | Plain _ \<Rightarrow> Inl TypeError)"

text \<open>\<^verbatim>\<open>df[source]\<close> for the numeric indicators: the float column of that name. A name
  with no column, and a key that is no string, raise; a column of another dtype and a
  list of names are left open.\<close>

definition source_column :: "frame \<Rightarrow> pyval \<Rightarrow> exn + fl list" where
  "source_column df source =
     (case source of
        Plain (JStr s) \<Rightarrow>
          (case get_col df s of
             None \<Rightarrow> Inl KeyError
           | Some (Floats xs) \<Rightarrow> Inr xs
           | Some _ \<Rightarrow> Inl Unmodelled)
      | Plain (JArr _) \<Rightarrow> Inl Unmodelled
      | Plain (JObj _) \<Rightarrow> Inl TypeError
      | _ \<Rightarrow> Inl KeyError)"

text \<open>The result of the failure branch: the keys set to None in the frame at hand.\<close>

definition failed :: "string list \<Rightarrow> frame \<Rightarrow> ind_result" where
  "failed ks df =
     (let df' = fold set_none ks df
      in \<lparr>r_success = False, r_frame = df', r_keys = ks, r_arg = df'\<rparr>)"

definition succeeded :: "string list \<Rightarrow> frame \<Rightarrow> ind_result" where
  "succeeded ks df = \<lparr>r_success = True, r_frame = df, r_keys = ks, r_arg = df\<rparr>"

subsection \<open>Slope\<close>

definition Slope :: "frame \<Rightarrow> (string \<times> pyval) list \<Rightarrow> exn + ind_result" where
  "Slope df params =
     bindE (bind_kwargs [''source''] [''source''] params) (\<lambda>_.
       catch
         (bindE (source_column df (kwarg params ''source'' (Plain JNull))) (\<lambda>xs.
            Inr (succeeded [''slope'']
                  (set_col ''slope'' (Bools (map (\<lambda>d. fgt d (Fin 0)) (pd_diff xs))) df))))
         (\<lambda>e. Inr (failed [''slope''] df)))"

subsection \<open>SimpleMovingAverage\<close>

definition SimpleMovingAverage ::
  "(string \<Rightarrow> int option) \<Rightarrow> frame \<Rightarrow> (string \<times> pyval) list \<Rightarrow> exn + ind_result" where
  "SimpleMovingAverage py_int df params =
     bindE (bind_kwargs [''period'', ''source''] [''period''] params) (\<lambda>_.
       catch
         (bindE (int_of_pyval py_int (kwarg params ''period'' (Plain JNull))) (\<lambda>N.
            if int (len df) > N then
              bindE (source_column df (kwarg params ''source'' (Plain (JStr ''adjusted_close'')))) (\<lambda>xs.
                if N < 0 then Inl ValueError
                else
                  (let sma = rolling_mean (nat N) xs;
                       rising = map (\<lambda>p. fgt p (Fin 0)) (pct_change sma)
                   in Inr (succeeded [''sma'', ''rising'']
                            (set_col ''rising'' (Bools rising) (set_col ''sma'' (Floats sma) df)))))
            else Inr (succeeded [''sma'', ''rising''] (fold set_none [''sma'', ''rising''] df))))
         (\<lambda>e. Inr (failed [''sma'', ''rising''] df)))"

subsection \<open>RSI\<close>

text \<open>The inner function \<^verbatim>\<open>rma\<close>: \<^verbatim>\<open>a\<close> starts as NaN everywhere, \<^verbatim>\<open>a[n]\<close> is the mean
  of \<^verbatim>\<open>x[1:n+1]\<close>, and for \<^verbatim>\<open>i\<close> in \<^verbatim>\<open>range(n+1, len(x))\<close> the entry \<^verbatim>\<open>a[i]\<close> is
  \<^verbatim>\<open>(a[i-1] * (n - 1) + x[i]) / n\<close>.\<close>

fun rma_loop :: "int \<Rightarrow> fl list \<Rightarrow> int list \<Rightarrow> fl list \<Rightarrow> exn + fl list" where
  "rma_loop n x [] a = Inr a"
| "rma_loop n x (i # is) a =
     bindE (np_index (length a) (i - 1)) (\<lambda>p.
     bindE (np_index (length x) i) (\<lambda>q.
     bindE (np_index (length a) i) (\<lambda>r.
       rma_loop n x is
         (a[r := fdiv (fadd (fmul (a ! p) (fl_of_int (n - 1))) (x ! q)) (fl_of_int n)]))))"

definition rma :: "fl list \<Rightarrow> int \<Rightarrow> exn + fl list" where
  "rma x n =
     (let a = replicate (length x) NaN;
          m = np_mean (py_slice x 1 (n + 1))
      in bindE (np_index (length a) n) (\<lambda>k.
           rma_loop n x [n + 1..int (length x) - 1] (a[k := m])))"

text \<open>\<^verbatim>\<open>change.mask(change < 0, 0.0)\<close> and \<^verbatim>\<open>-change.mask(change > 0, -0.0)\<close>.\<close>

definition gain_of :: "fl list \<Rightarrow> fl list" where
  "gain_of change = map (\<lambda>c. if flt c (Fin 0) then Fin 0 else c) change"

definition loss_of :: "fl list \<Rightarrow> fl list" where
  "loss_of change = map (\<lambda>c. fneg (if fgt c (Fin 0) then Fin 0 else c)) change"

text \<open>\<^verbatim>\<open>100 - (100 / (1 + rs))\<close>, row by row.\<close>

definition rsi_of :: "fl \<Rightarrow> fl" where
  "rsi_of rs = fsub (Fin 100) (fdiv (Fin 100) (fadd (Fin 1) rs))"

definition del_cols :: "string list \<Rightarrow> frame \<Rightarrow> frame" where
  "del_cols ks df = df\<lparr>columns := filter (\<lambda>(k, c). k \<notin> set ks) (columns df)\<rparr>"

text \<open>The handler of \<^verbatim>\<open>RSI\<close>, on the frame as the exception found it.\<close>

definition RSI_except :: "frame \<Rightarrow> exn \<Rightarrow> exn + ind_result" where
  "RSI_except df e = catch (Inl e) (\<lambda>_. Inr (failed [''rsi''] df))"

definition RSI ::
  "(string \<Rightarrow> int option) \<Rightarrow> frame \<Rightarrow> (string \<times> pyval) list \<Rightarrow> exn + ind_result" where
  "RSI py_int df params =
     bindE (bind_kwargs [''period'', ''source''] [] params) (\<lambda>_.
       case int_of_pyval py_int (kwarg params ''period'' (Decimal 14)) of
         Inl e \<Rightarrow> RSI_except df e
       | Inr N \<Rightarrow>
           if int (len df) > N then
             (case source_column df (kwarg params ''source'' (Plain (JStr ''close''))) of
                Inl e \<Rightarrow> RSI_except df e
              | Inr xs \<Rightarrow>
                  (let change = pd_diff xs;
                       gain = gain_of change;
                       loss = loss_of change;
                       df1 = set_col ''loss'' (Floats loss)
                               (set_col ''gain'' (Floats gain)
                                 (set_col ''change'' (Floats change) df))
                   in case rma gain N of
                        Inl e \<Rightarrow> RSI_except df1 e
                      | Inr avg_gain \<Rightarrow>
                          (let df2 = set_col ''avg_gain'' (Floats avg_gain) df1
                           in case rma loss N of
                                Inl e \<Rightarrow> RSI_except df2 e
                              | Inr avg_loss \<Rightarrow>
                                  (let rs = map2 fdiv avg_gain avg_loss;
                                       rsi = map rsi_of rs;
                                       df3 = set_col ''rsi'' (Floats rsi)
                                               (set_col ''rs'' (Floats rs)
                                                 (set_col ''avg_loss'' (Floats avg_loss) df2))
                                   in Inr (succeeded [''rsi'']
                                        (del_cols [''change'', ''gain'', ''loss'', ''avg_gain'',
                                                   ''avg_loss'', ''rs''] df3))))))
           else Inr (succeeded [''rsi''] (set_none ''rsi'' df)))"

text \<open>For the proofs about \<^verbatim>\<open>RSI\<close>: a value that is NaN or a real number not below
  zero, as the gains, the losses and their averages are.\<close>

definition nonneg :: "fl \<Rightarrow> bool" where
  "nonneg v = (case v of NaN \<Rightarrow> True | Fin r \<Rightarrow> 0 \<le> r | _ \<Rightarrow> False)"

section \<open>indicator\_factory.py: intervals and resampling\<close>

datatype Interval = DAILY | WEEKLY | MONTHLY

definition Interval_value :: "Interval \<Rightarrow> nat" where
  "Interval_value i = (case i of DAILY \<Rightarrow> 0 | WEEKLY \<Rightarrow> 1 | MONTHLY \<Rightarrow> 2)"

text \<open>\<^verbatim>\<open>str.lower\<close> on ASCII text.\<close>

definition lower_char :: "char \<Rightarrow> char" where
  "lower_char c =
     (if 65 \<le> (of_char c :: nat) \<and> (of_char c :: nat) \<le> 90
      then char_of ((of_char c :: nat) + 32) else c)"

definition lower :: "string \<Rightarrow> string" where
  "lower s = map lower_char s"

text \<open>\<^verbatim>\<open>intervalFromStr\<close>: a value without \<^verbatim>\<open>lower\<close> raises AttributeError, a string
  that names no interval NotImplementedError.\<close>

definition intervalFromStr :: "json \<Rightarrow> exn + Interval" where
  "intervalFromStr input =
     (case input of
        JStr s \<Rightarrow>
          (if lower s \<in> set [''d'', ''day'', ''daily''] then Inr DAILY
           else if lower s \<in> set [''w'', ''week'', ''weekly''] then Inr WEEKLY
           else if lower s \<in> set [''m'', ''month'', ''monthly''] then Inr MONTHLY
           else Inl NotImplementedError)
      | _ \<Rightarrow> Inl AttributeError)"

subsection \<open>Calendar buckets\<close>

text \<open>A date is its number of days since 1970-01-01, a Thursday. The rule \<^verbatim>\<open>1W\<close> makes
  bins that end on Sunday: the days from Monday to Sunday share a bin. The rule
  \<^verbatim>\<open>ME\<close> makes one bin per calendar month; year and month of a day number follow the
  usual conversion of the proleptic Gregorian calendar.\<close>

definition week_key :: "int \<Rightarrow> int" where
  "week_key d = (d + 3) div 7"

definition civil_year_month :: "int \<Rightarrow> int \<times> int" where
  "civil_year_month d =
     (let z = d + 719468;
          era = z div 146097;
          doe = z - era * 146097;
          yoe = (doe - doe div 1460 + doe div 36524 - doe div 146096) div 365;
          doy = doe - (365 * yoe + yoe div 4 - yoe div 100);
          mp = (5 * doy + 2) div 153;
          m = (if mp < 10 then mp + 3 else mp - 9);
          y = yoe + era * 400 + (if m \<le> 2 then 1 else 0)
      in (y, m))"

definition month_key :: "int \<Rightarrow> int" where
  "month_key d = (case civil_year_month d of (y, m) \<Rightarrow> 12 * y + (m - 1))"

definition bucket_key :: "Interval \<Rightarrow> int \<Rightarrow> int" where
  "bucket_key interval d =
     (case interval of DAILY \<Rightarrow> d | WEEKLY \<Rightarrow> week_key d | MONTHLY \<Rightarrow> month_key d)"

text \<open>The label of a bin is its last day: the Sunday that ends the week, the last day
  of the month, which is the day before the first day of the month after.\<close>

definition week_label :: "int \<Rightarrow> int" where
  "week_label k = 7 * k + 3"

definition days_from_civil :: "int \<Rightarrow> int \<Rightarrow> int \<Rightarrow> int" where
  "days_from_civil y m d =
     (let y' = (if m \<le> 2 then y - 1 else y);
          era = y' div 400;
          yoe = y' - era * 400;
          doy = (153 * (if m > 2 then m - 3 else m + 9) + 2) div 5 + d - 1;
          doe = yoe * 365 + yoe div 4 - yoe div 100 + doy
      in era * 146097 + doe - 719468)"

definition month_label :: "int \<Rightarrow> int" where
  "month_label k = days_from_civil ((k + 1) div 12) ((k + 1) mod 12 + 1) 1 - 1"

definition bucket_label :: "Interval \<Rightarrow> int \<Rightarrow> int" where
  "bucket_label interval k =
     (case interval of DAILY \<Rightarrow> k | WEEKLY \<Rightarrow> week_label k | MONTHLY \<Rightarrow> month_label k)"

subsection \<open>Aggregation\<close>

text \<open>The aggregations \<^verbatim>\<open>first\<close>, \<^verbatim>\<open>last\<close>, \<^verbatim>\<open>max\<close>, \<^verbatim>\<open>min\<close> and \<^verbatim>\<open>sum\<close> of pandas skip
  missing values; on a bin without a value the first four give NaN and the sum 0.\<close>

datatype aggfn = First | Last | Max_agg | Min_agg | Sum_agg

definition notnan :: "fl \<Rightarrow> bool" where
  "notnan v = (v \<noteq> NaN)"

definition fmax :: "fl \<Rightarrow> fl \<Rightarrow> fl" where
  "fmax a b = (if flt a b then b else a)"

definition fmin :: "fl \<Rightarrow> fl \<Rightarrow> fl" where
  "fmin a b = (if flt b a then b else a)"

definition aggregate :: "aggfn \<Rightarrow> fl list \<Rightarrow> fl" where
  "aggregate fn vs =
     (case fn of
        First \<Rightarrow> (case filter notnan vs of [] \<Rightarrow> NaN | v # _ \<Rightarrow> v)
      | Last \<Rightarrow> (case rev (filter notnan vs) of [] \<Rightarrow> NaN | v # _ \<Rightarrow> v)
      | Max_agg \<Rightarrow> (case filter notnan vs of [] \<Rightarrow> NaN | v # rest \<Rightarrow> foldl fmax v rest)
      | Min_agg \<Rightarrow> (case filter notnan vs of [] \<Rightarrow> NaN | v # rest \<Rightarrow> foldl fmin v rest)
      | Sum_agg \<Rightarrow> foldl fadd (Fin 0) (filter notnan vs))"

text \<open>The sum above is the sum of real numbers, and float64 rounds. It holds every whole
  number up to \<open>2 ^ 53\<close> in magnitude, so a sum of whole numbers whose magnitudes add up to
  no more than that is computed without rounding or overflow, in whatever order and with
  or without compensation. \<open>exact_sum\<close> says so of the values of a bin; a sum of other
  values is left open in \<open>resample_column\<close>.\<close>

definition whole :: "fl \<Rightarrow> bool" where
  "whole v = (case v of Fin r \<Rightarrow> r = of_int \<lfloor>r\<rfloor> | _ \<Rightarrow> False)"

definition magnitude :: "fl \<Rightarrow> real" where
  "magnitude v = (case v of Fin r \<Rightarrow> \<bar>r\<bar> | _ \<Rightarrow> 0)"

definition exact_sum :: "fl list \<Rightarrow> bool" where
  "exact_sum vs =
     (list_all whole (filter notnan vs) \<and>
      sum_list (map magnitude (filter notnan vs)) \<le> 2 ^ 53)"

definition last_date :: "int option list \<Rightarrow> int option" where
  "last_date ts = (case rev (filter (\<lambda>t. t \<noteq> None) ts) of [] \<Rightarrow> None | t # _ \<Rightarrow> t)"

text \<open>The dict handed to \<^verbatim>\<open>agg\<close> in \<^verbatim>\<open>resampleDataFrame\<close>.\<close>

definition agg_spec :: "(string \<times> aggfn) list" where
  "agg_spec =
     [(''date'', Last), (''open'', First), (''high'', Max_agg), (''low'', Min_agg),
      (''close'', Last), (''split_adjusted_open'', First), (''split_adjusted_high'', Max_agg),
      (''split_adjusted_low'', Min_agg), (''split_adjusted_close'', Last),
      (''adjusted_close'', Last), (''volume'', Sum_agg)]"

subsection \<open>Resampling\<close>

text \<open>\<^verbatim>\<open>resample(rule, on='date')\<close> puts the rows in the order of their dates, by a stable
  sort, and makes one bin for every week or month from that of the first date to that
  of the last, also where no row falls into it.\<close>

definition argsort :: "int list \<Rightarrow> nat list" where
  "argsort ds = sort_key (\<lambda>i. ds ! i) [0..<length ds]"

definition bins :: "(int \<Rightarrow> int) \<Rightarrow> int list \<Rightarrow> int list" where
  "bins key ds = (if ds = [] then [] else [key (Min (set ds))..key (Max (set ds))])"

definition bin_rows :: "(int \<Rightarrow> int) \<Rightarrow> int list \<Rightarrow> int \<Rightarrow> nat list" where
  "bin_rows key ds k = filter (\<lambda>i. key (ds ! i) = k) (argsort ds)"

text \<open>One aggregated column. The frame's columns are as long as its date column;
  datetime columns are aggregated by \<^verbatim>\<open>last\<close> only, and a column is summed only where
  the sum of every bin is exact.\<close>

definition resample_column ::
  "(int \<Rightarrow> int) \<Rightarrow> int list \<Rightarrow> aggfn \<Rightarrow> column \<Rightarrow> exn + column" where
  "resample_column key ds fn col =
     (case col of
        Floats xs \<Rightarrow>
          (if length xs = length ds \<and>
              (fn = Sum_agg \<longrightarrow>
                 list_all (\<lambda>k. exact_sum (map (\<lambda>i. xs ! i) (bin_rows key ds k))) (bins key ds))
           then Inr (Floats (map (\<lambda>k. aggregate fn (map (\<lambda>i. xs ! i) (bin_rows key ds k)))
                              (bins key ds)))
           else Inl Unmodelled)
      | Dates ts \<Rightarrow>
          (if length ts = length ds \<and> fn = Last
           then Inr (Dates (map (\<lambda>k. last_date (map (\<lambda>i. ts ! i) (bin_rows key ds k)))
                             (bins key ds)))
           else Inl Unmodelled)
      | _ \<Rightarrow> Inl Unmodelled)"

fun resample_columns ::
  "(int \<Rightarrow> int) \<Rightarrow> int list \<Rightarrow> frame \<Rightarrow> (string \<times> aggfn) list \<Rightarrow> exn + (string \<times> column) list" where
  "resample_columns key ds df [] = Inr []"
| "resample_columns key ds df ((c, fn) # spec) =
     (case get_col df c of
        None \<Rightarrow> Inl KeyError
      | Some col \<Rightarrow>
          bindE (resample_column key ds fn col) (\<lambda>out.
          bindE (resample_columns key ds df spec) (\<lambda>outs. Inr ((c, out) # outs))))"

text \<open>\<^verbatim>\<open>df.resample(rule=delta, on='date').agg({...})\<close>: KeyError when the date column or
  an aggregated column is missing, TypeError when the date column is no datetime
  column. The index of the result is the DatetimeIndex of the bin labels, here their
  day numbers.\<close>

definition resample_agg :: "(int \<Rightarrow> int) \<Rightarrow> (int \<Rightarrow> int) \<Rightarrow> frame \<Rightarrow> exn + frame" where
  "resample_agg key label df =
     (case get_col df ''date'' of
        None \<Rightarrow> Inl KeyError
      | Some (Dates ts) \<Rightarrow>
          (if list_all (\<lambda>c. get_col df c \<noteq> None) (map fst agg_spec) then
             (if list_all (\<lambda>t. t \<noteq> None) ts \<and> length ts = len df then
                bindE (resample_columns key (map the ts) df agg_spec) (\<lambda>cols.
                  Inr \<lparr>index = map label (bins key (map the ts)), columns = cols\<rparr>)
              else Inl Unmodelled)
           else Inl KeyError)
      | Some _ \<Rightarrow> Inl TypeError)"

text \<open>\<^verbatim>\<open>resampleDataFrame\<close>: the copy of the frame, resampled for the weekly and the monthly
  interval, and then \<^verbatim>\<open>df.index = range(len(df))\<close>, which puts the positions in the place
  of the labels.\<close>

definition resampleDataFrame :: "frame \<Rightarrow> Interval \<Rightarrow> exn + frame" where
  "resampleDataFrame data_in interval =
     bindE (if interval = WEEKLY \<or> interval = MONTHLY
            then resample_agg (bucket_key interval) (bucket_label interval) data_in
            else Inr data_in) (\<lambda>df.
       Inr (df\<lparr>index := map int [0..<len df]\<rparr>))"

section \<open>indicator\_factory.py: the pipeline\<close>

subsection \<open>Storage\<close>

text \<open>A row of the table \<^verbatim>\<open>quotes\<close> as the queries select it, every price cast to
  double precision (NULL arrives as NaN in the frame), the date as a day number. The
  query of \<^verbatim>\<open>calculate\<close> selects the volume without the cast; it is a float here in
  both.\<close>

record quote =
  q_date :: int
  q_open :: fl
  q_high :: fl
  q_low :: fl
  q_close :: fl
  q_split_adjusted_open :: fl
  q_split_adjusted_high :: fl
  q_split_adjusted_low :: fl
  q_split_adjusted_close :: fl
  q_adjusted_close :: fl
  q_volume :: fl

text \<open>The database: whether a connection can be had, the quotes of each security, and
  the table \<^verbatim>\<open>indicators\<close> with its unique key (security, date). A statement that is sent
  is taken to succeed.\<close>

record database =
  available :: bool
  quotes :: "int \<Rightarrow> quote list"
  indicators :: "int \<times> int \<Rightarrow> (string \<times> cell) list option"

text \<open>\<^verbatim>\<open>SELECT ... FROM quotes WHERE security = id ORDER BY date ASC\<close>.\<close>

definition fetch_quotes :: "database \<Rightarrow> int \<Rightarrow> exn + quote list" where
  "fetch_quotes db i =
     (if available db then Inr (sort_key q_date (quotes db i)) else Inl OperationalError)"

text \<open>\<^verbatim>\<open>INSERT ... ON CONFLICT ON CONSTRAINT indicators_security_date_uq DO UPDATE SET
  k = EXCLUDED.k\<close> for every key of the record: a new row, or the old row with the given
  columns overwritten.\<close>

definition upsert :: "int \<times> int \<Rightarrow> (string \<times> cell) list \<Rightarrow> database \<Rightarrow> database" where
  "upsert key record_in db =
     db\<lparr>indicators := (indicators db)
          (key \<mapsto> fold (\<lambda>(k, v). assign k v) record_in
                     (case indicators db key of None \<Rightarrow> [] | Some old \<Rightarrow> old))\<rparr>"

subsection \<open>Logging\<close>

datatype level = DEBUG | INFO | WARNING | ERROR

datatype message =
    Calculate_start
  | Got_quotes nat
  | Skip_less_data
  | Calculate_indicator json
  | Not_successful json
  | Indicator_data
  | Exception_logged exn

type_synonym logbook = "(level \<times> message) list"

subsection \<open>Frames of quotes\<close>

text \<open>\<^verbatim>\<open>pd.DataFrame(quotes)\<close> followed by \<^verbatim>\<open>pd.to_datetime\<close> on the date column; a list
  without rows gives a frame without columns.\<close>

definition daily_frame :: "quote list \<Rightarrow> frame" where
  "daily_frame rows =
     (if rows = [] then \<lparr>index = [], columns = []\<rparr>
      else \<lparr>index = map int [0..<length rows],
             columns =
               [(''date'', Dates (map (\<lambda>q. Some (q_date q)) rows)),
                (''open'', Floats (map q_open rows)),
                (''high'', Floats (map q_high rows)),
                (''low'', Floats (map q_low rows)),
                (''close'', Floats (map q_close rows)),
                (''split_adjusted_open'', Floats (map q_split_adjusted_open rows)),
                (''split_adjusted_high'', Floats (map q_split_adjusted_high rows)),
                (''split_adjusted_low'', Floats (map q_split_adjusted_low rows)),
                (''split_adjusted_close'', Floats (map q_split_adjusted_close rows)),
                (''adjusted_close'', Floats (map q_adjusted_close rows)),
                (''volume'', Floats (map q_volume rows))]\<rparr>)"

definition quote_columns :: "string list" where
  "quote_columns =
     [''date'', ''open'', ''high'', ''low'', ''close'', ''split_adjusted_open'',
      ''split_adjusted_high'', ''split_adjusted_low'', ''split_adjusted_close'',
      ''adjusted_close'', ''volume'']"

subsection \<open>One configured indicator\<close>

type_synonym indicator = "frame \<Rightarrow> (string \<times> pyval) list \<Rightarrow> exn + ind_result"

text \<open>\<^verbatim>\<open>globals()[name]\<close>: the functions a name stands for are the parameter \<open>reg\<close>; a
  name that is unknown or no string raises.\<close>

definition lookup_indicator :: "(string \<Rightarrow> indicator option) \<Rightarrow> json \<Rightarrow> exn + indicator" where
  "lookup_indicator reg name =
     (case name of
        JStr s \<Rightarrow> (case reg s of None \<Rightarrow> Inl KeyError | Some f \<Rightarrow> Inr f)
      | JArr _ \<Rightarrow> Inl TypeError
      | JObj _ \<Rightarrow> Inl TypeError
      | _ \<Rightarrow> Inl KeyError)"

text \<open>The functions of indicators.py that this development follows; the other seven are
  left open, and every other name counts as undefined.\<close>

definition indicators_py :: "(string \<Rightarrow> int option) \<Rightarrow> string \<Rightarrow> indicator option" where
  "indicators_py py_int name =
     (if name = ''Slope'' then Some Slope
      else if name = ''SimpleMovingAverage'' then Some (SimpleMovingAverage py_int)
      else if name = ''RSI'' then Some (RSI py_int)
      else if name \<in> set [''ExponentialMovingAverage'', ''BollingerBands'', ''ADXDMI'', ''PSAR'',
                            ''Larger'', ''HighLow'', ''CumulativeReturn'']
      then Some (\<lambda>df params. Inl Unmodelled)
      else None)"

text \<open>\<^verbatim>\<open>for k in keys: if k not in obj['mapping'].keys(): df = df.drop([k], axis=1)\<close>.\<close>

fun drop_unmapped :: "string list \<Rightarrow> json \<Rightarrow> frame \<Rightarrow> exn + frame" where
  "drop_unmapped [] obj df = Inr df"
| "drop_unmapped (k # ks) obj df =
     bindE (getitem obj ''mapping'') (\<lambda>m.
       case m of
         JObj kvs \<Rightarrow>
           (if k \<notin> set (map fst kvs)
            then bindE (drop_col k df) (drop_unmapped ks obj)
            else drop_unmapped ks obj df)
       | _ \<Rightarrow> Inl AttributeError)"

text \<open>\<^verbatim>\<open>df.rename(columns=obj['mapping'])\<close>: every column whose name is a key of the
  mapping takes the mapped name. A mapping that is no dict, a new name that is no
  string and a frame that would hold a name twice are left open.\<close>

definition rename_col :: "(string \<times> json) list \<Rightarrow> string \<Rightarrow> exn + string" where
  "rename_col kvs c =
     (case map_of kvs c of
        None \<Rightarrow> Inr c
      | Some (JStr s) \<Rightarrow> Inr s
      | Some _ \<Rightarrow> Inl Unmodelled)"

fun rename_cols :: "(string \<times> json) list \<Rightarrow> (string \<times> column) list \<Rightarrow> exn + (string \<times> column) list" where
  "rename_cols kvs [] = Inr []"
| "rename_cols kvs ((c, col) # cols) =
     bindE (rename_col kvs c) (\<lambda>c'.
     bindE (rename_cols kvs cols) (\<lambda>cols'. Inr ((c', col) # cols')))"

definition rename :: "json \<Rightarrow> frame \<Rightarrow> exn + frame" where
  "rename obj df =
     bindE (getitem obj ''mapping'') (\<lambda>m.
       case m of
         JObj kvs \<Rightarrow>
           bindE (rename_cols kvs (columns df)) (\<lambda>cols.
             if distinct (map fst cols) then Inr (df\<lparr>columns := cols\<rparr>) else Inl Unmodelled)
       | _ \<Rightarrow> Inl Unmodelled)"

text \<open>The body of the loop over the configured entries up to the test of \<^verbatim>\<open>success\<close>,
  and the branch taken on success. The result is the flag and the three frames: on
  success the renamed frame stands in the list, otherwise the list holds the frame the
  function was called on, as the call left it.\<close>

definition apply_entry ::
  "(string \<Rightarrow> indicator option) \<Rightarrow> frame list \<Rightarrow> json \<Rightarrow> exn + bool \<times> frame list" where
  "apply_entry reg dfs obj =
     bindE (bindE (getitem obj ''interval'') intervalFromStr) (\<lambda>interval.
     bindE (bindE (getitem obj ''parameters'') parseParameters) (\<lambda>params.
     bindE (bindE (getitem obj ''indicator'') (lookup_indicator reg)) (\<lambda>f.
     bindE (f (dfs ! Interval_value interval) params) (\<lambda>res.
       if r_success res then
         bindE (drop_unmapped (r_keys res) obj (r_frame res)) (\<lambda>df.
         bindE (rename obj df) (\<lambda>df'.
           Inr (True, dfs[Interval_value interval := df'])))
       else Inr (False, dfs[Interval_value interval := r_arg res])))))"

text \<open>\<^verbatim>\<open>for obj in config['securities']\<close>: a list gives its entries, a dict its keys, a
  string its characters; nothing else can be iterated.\<close>

definition iterate :: "json \<Rightarrow> exn + json list" where
  "iterate v =
     (case v of
        JArr items \<Rightarrow> Inr items
      | JObj kvs \<Rightarrow> Inr (map (\<lambda>(k, v). JStr k) kvs)
      | JStr s \<Rightarrow> Inr (map (\<lambda>c. JStr [c]) s)
      | _ \<Rightarrow> Inl TypeError)"

subsection \<open>The loops\<close>

text \<open>The loop of \<^verbatim>\<open>calculate\<close>: an indicator that reports failure is logged with a
  warning and the loop goes on.\<close>

fun calculate_loop ::
  "(string \<Rightarrow> indicator option) \<Rightarrow> json list \<Rightarrow> frame list \<Rightarrow> logbook \<Rightarrow> (exn + frame list) \<times> logbook" where
  "calculate_loop reg [] dfs lg = (Inr dfs, lg)"
| "calculate_loop reg (obj # objs) dfs lg =
     (case apply_entry reg dfs obj of
        Inl e \<Rightarrow> (Inl e, lg @ [(DEBUG, Calculate_indicator obj)])
      | Inr (True, dfs') \<Rightarrow>
          calculate_loop reg objs dfs' (lg @ [(DEBUG, Calculate_indicator obj)])
      | Inr (False, dfs') \<Rightarrow>
          calculate_loop reg objs dfs'
            (lg @ [(DEBUG, Calculate_indicator obj), (WARNING, Not_successful obj)]))"

text \<open>The loop of \<^verbatim>\<open>calculateMultiprocessing\<close>: after the warning stands
  \<^verbatim>\<open>return False\<close>; None is that return.\<close>

fun calculateMultiprocessing_loop ::
  "(string \<Rightarrow> indicator option) \<Rightarrow> json list \<Rightarrow> frame list \<Rightarrow> logbook \<Rightarrow>
     (exn + frame list option) \<times> logbook" where
  "calculateMultiprocessing_loop reg [] dfs lg = (Inr (Some dfs), lg)"
| "calculateMultiprocessing_loop reg (obj # objs) dfs lg =
     (case apply_entry reg dfs obj of
        Inl e \<Rightarrow> (Inl e, lg @ [(DEBUG, Calculate_indicator obj)])
      | Inr (True, dfs') \<Rightarrow>
          calculateMultiprocessing_loop reg objs dfs' (lg @ [(DEBUG, Calculate_indicator obj)])
      | Inr (False, dfs') \<Rightarrow>
          (Inr None, lg @ [(DEBUG, Calculate_indicator obj), (WARNING, Not_successful obj)]))"

subsection \<open>Merging the last rows\<close>

text \<open>The last entry of a column, after \<^verbatim>\<open>replace({np.nan: None})\<close>. NaT is left open.\<close>

definition last_cell :: "column \<Rightarrow> exn + cell" where
  "last_cell col =
     (case col of
        Floats xs \<Rightarrow>
          (if xs = [] then Inl Unmodelled
           else Inr (if last xs = NaN then CNone else CFloat (last xs)))
      | Bools bs \<Rightarrow> (if bs = [] then Inl Unmodelled else Inr (CBool (last bs)))
      | Dates ts \<Rightarrow>
          (if ts = [] \<or> last ts = None then Inl Unmodelled else Inr (CDate (last ts)))
      | Objects cs \<Rightarrow>
          (if cs = [] then Inl Unmodelled
           else Inr (if last cs = CFloat NaN then CNone else last cs)))"

fun last_cells :: "(string \<times> column) list \<Rightarrow> exn + (string \<times> cell) list" where
  "last_cells [] = Inr []"
| "last_cells ((c, col) # cols) =
     bindE (last_cell col) (\<lambda>v.
     bindE (last_cells cols) (\<lambda>vs. Inr ((c, v) # vs)))"

text \<open>\<^verbatim>\<open>dfs[i].drop([...], axis=1)\<close> with the eleven quote columns, which must all be
  there, then \<^verbatim>\<open>iloc[-1].to_dict()\<close>.\<close>

definition last_record :: "frame \<Rightarrow> exn + (string \<times> cell) list" where
  "last_record df =
     (if list_all (\<lambda>c. get_col df c \<noteq> None) quote_columns then
        (if len df = 0 then Inl IndexError
         else last_cells (filter (\<lambda>(c, col). c \<notin> set quote_columns) (columns df)))
      else Inl KeyError)"

text \<open>\<^verbatim>\<open>data.update(...)\<close> for the three frames in turn.\<close>

fun merge_records :: "frame list \<Rightarrow> (string \<times> cell) list \<Rightarrow> exn + (string \<times> cell) list" where
  "merge_records [] record_acc = Inr record_acc"
| "merge_records (df # dfs) record_acc =
     bindE (last_record df) (\<lambda>r.
       merge_records dfs (fold (\<lambda>(k, v). assign k v) r record_acc))"

text \<open>The date of the last daily row.\<close>

definition last_daily_date :: "frame \<Rightarrow> exn + int" where
  "last_daily_date df =
     (case get_col df ''date'' of
        None \<Rightarrow> Inl KeyError
      | Some (Dates ts) \<Rightarrow>
          (if ts = [] then Inl IndexError
           else (case last ts of None \<Rightarrow> Inl ValueError | Some d \<Rightarrow> Inr d))
      | Some _ \<Rightarrow> Inl Unmodelled)"

subsection \<open>calculateMultiprocessing and calculate\<close>

text \<open>What follows the check of the row count in \<^verbatim>\<open>calculateMultiprocessing\<close>, inside its
  \<^verbatim>\<open>try\<close>: Some True after the write, Some False for the return out of the loop.\<close>

definition calculateMultiprocessing_body ::
  "(string \<Rightarrow> indicator option) \<Rightarrow> int \<Rightarrow> json \<Rightarrow> quote list \<Rightarrow> database \<Rightarrow> logbook \<Rightarrow>
     (exn + bool \<times> database) \<times> logbook" where
  "calculateMultiprocessing_body reg i config rows db lg =
     (let dfDaily = daily_frame rows in
      case bindE (resampleDataFrame dfDaily WEEKLY) (\<lambda>dfWeekly.
           bindE (resampleDataFrame dfDaily MONTHLY) (\<lambda>dfMonthly.
           bindE (bindE (getitem config ''securities'') iterate) (\<lambda>objs.
             Inr ([dfDaily, dfWeekly, dfMonthly], objs)))) of
        Inl e \<Rightarrow> (Inl e, lg)
      | Inr (dfs, objs) \<Rightarrow>
          (case calculateMultiprocessing_loop reg objs dfs lg of
             (Inl e, lg') \<Rightarrow> (Inl e, lg')
           | (Inr None, lg') \<Rightarrow> (Inr (False, db), lg')
           | (Inr (Some dfs'), lg') \<Rightarrow>
               (case bindE (last_daily_date (dfs' ! 0)) (\<lambda>d.
                     bindE (merge_records dfs' []) (\<lambda>r.
                       Inr (d, fold (\<lambda>(k, v). assign k v)
                                 [(''security'', CInt i), (''date'', CDate (Some d))] r))) of
                  Inl e \<Rightarrow> (Inl e, lg')
                | Inr (d, r) \<Rightarrow> (Inr (True, upsert (i, d) r db), lg'))))"

text \<open>\<^verbatim>\<open>calculateMultiprocessing\<close>: every exception is logged and the function returns
  False. The result is the value returned, the database and the log.\<close>

definition calculateMultiprocessing ::
  "(string \<Rightarrow> indicator option) \<Rightarrow> int \<Rightarrow> json \<Rightarrow> database \<Rightarrow> (exn + bool \<times> database) \<times> logbook" where
  "calculateMultiprocessing reg i config db =
     (let lg = [(INFO, Calculate_start)] in
      case fetch_quotes db i of
        Inl e \<Rightarrow> (Inr (False, db), lg @ [(ERROR, Exception_logged e)])
      | Inr rows \<Rightarrow>
          (let lg1 = lg @ [(DEBUG, Got_quotes (length rows))] in
           if length rows < 10 then (Inr (True, db), lg1 @ [(DEBUG, Skip_less_data)])
           else
             (case calculateMultiprocessing_body reg i config rows db lg1 of
                (Inl Unmodelled, lg2) \<Rightarrow> (Inl Unmodelled, lg2)
              | (Inl e, lg2) \<Rightarrow> (Inr (False, db), lg2 @ [(ERROR, Exception_logged e)])
              | (Inr res, lg2) \<Rightarrow> (Inr res, lg2))))"

text \<open>\<^verbatim>\<open>calculate\<close>: the same steps with the loop that goes on after a failure; the
  write is \<^verbatim>\<open>forceUpdateEntries\<close> with the identifier put before the data; an exception
  is logged and raised again. The factory's configuration is \<open>config\<close>.\<close>

definition calculate_body ::
  "(string \<Rightarrow> indicator option) \<Rightarrow> int \<Rightarrow> json \<Rightarrow> quote list \<Rightarrow> database \<Rightarrow> logbook \<Rightarrow>
     (exn + bool \<times> database) \<times> logbook" where
  "calculate_body reg i config rows db lg =
     (let dfDaily = daily_frame rows in
      case bindE (resampleDataFrame dfDaily WEEKLY) (\<lambda>dfWeekly.
           bindE (resampleDataFrame dfDaily MONTHLY) (\<lambda>dfMonthly.
           bindE (bindE (getitem config ''securities'') iterate) (\<lambda>objs.
             Inr ([dfDaily, dfWeekly, dfMonthly], objs)))) of
        Inl e \<Rightarrow> (Inl e, lg)
      | Inr (dfs, objs) \<Rightarrow>
          (case calculate_loop reg objs dfs lg of
             (Inl e, lg') \<Rightarrow> (Inl e, lg')
           | (Inr dfs', lg') \<Rightarrow>
               (case bindE (last_daily_date (dfs' ! 0)) (\<lambda>d.
                     bindE (merge_records dfs' []) (\<lambda>r.
                       Inr (d, fold (\<lambda>(k, v). assign k v) r
                                 [(''security'', CInt i), (''date'', CDate (Some d))]))) of
                  Inl e \<Rightarrow> (Inl e, lg')
                | Inr (d, r) \<Rightarrow>
                    (Inr (True, upsert (i, d) r db), lg' @ [(DEBUG, Indicator_data)]))))"

definition calculate ::
  "(string \<Rightarrow> indicator option) \<Rightarrow> int \<Rightarrow> json \<Rightarrow> database \<Rightarrow> (exn + bool \<times> database) \<times> logbook" where
  "calculate reg i config db =
     (let lg = [(DEBUG, Calculate_start)] in
      case fetch_quotes db i of
        Inl e \<Rightarrow> (Inl e, lg @ [(ERROR, Exception_logged e)])
      | Inr rows \<Rightarrow>
          (if length rows < 10 then (Inr (True, db), lg @ [(INFO, Skip_less_data)])
           else
             (case calculate_body reg i config rows db lg of
                (Inl Unmodelled, lg2) \<Rightarrow> (Inl Unmodelled, lg2)
              | (Inl e, lg2) \<Rightarrow> (Inl e, lg2 @ [(ERROR, Exception_logged e)])
              | (Inr res, lg2) \<Rightarrow> (Inr res, lg2))))"

subsection \<open>Sample data\<close>

text \<open>A quote with one price in every field, and ten of them on the days 0 to 9, for
  the concrete runs below.\<close>

definition flat_quote :: "int \<Rightarrow> real \<Rightarrow> quote" where
  "flat_quote d p =
     \<lparr>q_date = d, q_open = Fin p, q_high = Fin p, q_low = Fin p, q_close = Fin p,
      q_split_adjusted_open = Fin p, q_split_adjusted_high = Fin p,
      q_split_adjusted_low = Fin p, q_split_adjusted_close = Fin p,
      q_adjusted_close = Fin p, q_volume = Fin p\<rparr>"

definition ten_quotes :: "quote list" where
  "ten_quotes = map (\<lambda>n. flat_quote (int n) (real n + 1)) [0..<10]"

text \<open>A configuration entry for \<^verbatim>\<open>Slope\<close> on the daily frame.\<close>

definition slope_entry :: "string \<Rightarrow> string \<Rightarrow> json" where
  "slope_entry source stored =
     JObj [(''interval'', JStr ''daily''), (''indicator'', JStr ''Slope''),
           (''parameters'', JObj [(''source'', JStr source)]),
           (''mapping'', JObj [(''slope'', JStr stored)])]"

section \<open>Resampling in words\<close>

text \<open>The real number a finite float stands for.\<close>

definition the_real :: "fl \<Rightarrow> real" where
  "the_real v = (case v of Fin r \<Rightarrow> r | _ \<Rightarrow> 0)"

text \<open>A quote as the table holds it: every price is a finite number or missing (NULL,
  NaN in the frame), the volume is a whole number or missing.\<close>

definition stored_quote :: "quote \<Rightarrow> bool" where
  "stored_quote q =
     (list_all (\<lambda>v. v = NaN \<or> isfinite v)
        [q_open q, q_high q, q_low q, q_close q, q_split_adjusted_open q,
         q_split_adjusted_high q, q_split_adjusted_low q, q_split_adjusted_close q,
         q_adjusted_close q] \<and>
      (q_volume q = NaN \<or> whole (q_volume q)))"

text \<open>The volumes of a history, added up by magnitude.\<close>

definition total_volume :: "quote list \<Rightarrow> real" where
  "total_volume rows = sum_list (map (\<lambda>q. magnitude (q_volume q)) rows)"

text \<open>The buckets: for every week or month from that of the first row to that of the
  last, the daily rows that fall into it, in their order.\<close>

definition buckets :: "Interval \<Rightarrow> quote list \<Rightarrow> quote list list" where
  "buckets interval rows =
     (if rows = [] then []
      else map (\<lambda>k. filter (\<lambda>q. bucket_key interval (q_date q) = k) rows)
             [bucket_key interval (q_date (hd rows))..bucket_key interval (q_date (last rows))])"

text \<open>The rows of a bucket that hold a value in a field.\<close>

definition present :: "(quote \<Rightarrow> fl) \<Rightarrow> quote list \<Rightarrow> quote list" where
  "present f rs = filter (\<lambda>q. f q \<noteq> NaN) rs"

text \<open>The value of the first row that holds one, the value of the last row that holds
  one, the greatest and the least value and the sum of the values of a bucket; a bucket
  where no row holds a value has no first, last, greatest or least value (NaN) and the
  sum 0.\<close>

definition spec_first :: "(quote \<Rightarrow> fl) \<Rightarrow> quote list \<Rightarrow> fl" where
  "spec_first f rs = (if present f rs = [] then NaN else f (hd (present f rs)))"

definition spec_last :: "(quote \<Rightarrow> fl) \<Rightarrow> quote list \<Rightarrow> fl" where
  "spec_last f rs = (if present f rs = [] then NaN else f (last (present f rs)))"

definition spec_max :: "(quote \<Rightarrow> fl) \<Rightarrow> quote list \<Rightarrow> fl" where
  "spec_max f rs =
     (if present f rs = [] then NaN
      else Fin (Max (set (map (\<lambda>q. the_real (f q)) (present f rs)))))"

definition spec_min :: "(quote \<Rightarrow> fl) \<Rightarrow> quote list \<Rightarrow> fl" where
  "spec_min f rs =
     (if present f rs = [] then NaN
      else Fin (Min (set (map (\<lambda>q. the_real (f q)) (present f rs)))))"

definition spec_sum :: "(quote \<Rightarrow> fl) \<Rightarrow> quote list \<Rightarrow> fl" where
  "spec_sum f rs = Fin (sum_list (map (\<lambda>q. the_real (f q)) (present f rs)))"

definition spec_last_date :: "quote list \<Rightarrow> int option" where
  "spec_last_date rs = (if rs = [] then None else Some (q_date (last rs)))"

text \<open>The resampled frame in these words: one row per bucket, numbered from 0.\<close>

definition spec_resampled :: "Interval \<Rightarrow> quote list \<Rightarrow> frame" where
  "spec_resampled interval rows =
     (let bs = buckets interval rows in
      \<lparr>index = map int [0..<length bs],
       columns =
         [(''date'', Dates (map spec_last_date bs)),
          (''open'', Floats (map (spec_first q_open) bs)),
          (''high'', Floats (map (spec_max q_high) bs)),
          (''low'', Floats (map (spec_min q_low) bs)),
          (''close'', Floats (map (spec_last q_close) bs)),
          (''split_adjusted_open'', Floats (map (spec_first q_split_adjusted_open) bs)),
          (''split_adjusted_high'', Floats (map (spec_max q_split_adjusted_high) bs)),
          (''split_adjusted_low'', Floats (map (spec_min q_split_adjusted_low) bs)),
          (''split_adjusted_close'', Floats (map (spec_last q_split_adjusted_close) bs)),
          (''adjusted_close'', Floats (map (spec_last q_adjusted_close) bs)),
          (''volume'', Floats (map (spec_sum q_volume) bs))]\<rparr>)"

text \<open>A history with a missing open, a missing close and a week without quotes: Thursday
  and Friday of one week, and Friday two weeks later.\<close>

definition gap_quotes :: "quote list" where
  "gap_quotes =
     [(flat_quote 0 4)\<lparr>q_open := NaN\<rparr>, (flat_quote 1 6)\<lparr>q_close := NaN\<rparr>, flat_quote 15 5]"

section \<open>Properties of tasks.py\<close>

subsection \<open>Worker count\<close>

text \<open>C4. On a host with one logical CPU and no override the handler is built with
  zero parallel processes: \<^verbatim>\<open>int(1/2.0)\<close> is 0, and the fallback to 1 is taken only when
  the CPU count cannot be read.\<close>

theorem single_cpu_default_is_zero:
  "map_sum id parallelProcesses (TaskHandler_init py_int (Some 1) None (Document cfg)) = Inr 0"
  by (simp add: TaskHandler_init_def parseInt_def default_processes_def)

subsection \<open>Jobs\<close>

lemma BackgroundJobData_init_ids:
  "timestamp (BackgroundJobData_init env tbl i1 i2 d1 d2 dat ts uid) \<noteq> JNull \<and>
   uuid (BackgroundJobData_init env tbl i1 i2 d1 d2 dat ts uid) \<noteq> JNull"
  by (simp add: BackgroundJobData_init_def)

lemma fromDict_ids:
  "fromDict env d = Inr j \<Longrightarrow> timestamp j \<noteq> JNull \<and> uuid j \<noteq> JNull"
  unfolding fromDict_def bindE_def
  by (auto split: sum.splits simp: BackgroundJobData_init_ids)

lemma fromDict_asdict:
  "timestamp j \<noteq> JNull \<Longrightarrow> uuid j \<noteq> JNull \<Longrightarrow> fromDict env (asdict j) = Inr j"
  by (simp add: fromDict_def asdict_def bindE_def BackgroundJobData_init_def)

subsection \<open>Shutdown\<close>

lemma drain_eq: "drain q jobs = ([], jobs @ q)"
  by (induction q arbitrary: jobs) auto

lemma wait_tasks_empty: "wait_tasks fuel {} w = Some w"
  by (cases fuel) auto

lemma wait_tasks_nonempty: "bt \<noteq> {} \<Longrightarrow> wait_tasks fuel bt w = None"
  by (induction fuel arbitrary: w) auto

text \<open>No operation of the handler puts anything into \<^verbatim>\<open>backgroundTasks\<close>.\<close>

lemma init_backgroundTasks:
  "TaskHandler_init py_int cpu ov cfg = Inr h \<Longrightarrow> backgroundTasks h = {}"
  by (auto simp: TaskHandler_init_def split: json_file.splits)

lemma addJob_backgroundTasks: "backgroundTasks (addJob j h) = backgroundTasks h"
  by (simp add: addJob_def)

lemma tick_backgroundTasks:
  "backgroundTasks (fst (scheduleTasks_tick h w)) = backgroundTasks h"
  by (simp add: scheduleTasks_tick_def split: prod.splits)

lemma loadJobs_backgroundTasks:
  "backgroundTasks (snd (loadJobs env h f)) = backgroundTasks h"
  by (simp add: loadJobs_def split: json_file.splits json.splits prod.splits option.splits)

text \<open>C2. With \<^verbatim>\<open>backgroundTasks\<close> empty, as it always is, \<^verbatim>\<open>shutdown\<close> returns whatever
  the number of live worker processes: it makes no poll, and it drains the queue into
  the backup file while \<open>Suc n\<close> children are alive.\<close>

theorem shutdown_ignores_live_workers:
  "shutdown fuel (h\<lparr>backgroundTasks := {}\<rparr>) (w\<lparr>active_children := Suc n\<rparr>) =
     Some (h\<lparr>backgroundTasks := {}, shutdownRequest := True, task_cancelled := True,
             jobQueue := []\<rparr>,
           w\<lparr>active_children := Suc n,
             jobs_json := Document (JArr (map asdict (jobQueue h)))\<rparr>)"
  by (simp add: shutdown_def wait_tasks_empty drain_eq)

text \<open>The state of C2 is one the handler reaches: two jobs queued, one worker allowed,
  one round of the scheduler, then \<^verbatim>\<open>shutdown\<close>.\<close>

lemma shutdown_after_dispatch:
  "TaskHandler_init py_int (Some 2) None (Document cfg) = Inr h0 \<Longrightarrow>
   scheduleTasks_tick (addJob (quotes_job env 8) (addJob (quotes_job env 7) h0))
       \<lparr>jobs_json = Missing, active_children = 0, started = [], polls = 0\<rparr> = (h, w) \<Longrightarrow>
   active_children w = 1 \<and>
   map_option snd (shutdown 0 h w) =
     Some \<lparr>jobs_json = Document (JArr [asdict (quotes_job env 8)]), active_children = 1,
            started = [JInt 7], polls = 0\<rparr>"
  by (auto simp: TaskHandler_init_def parseInt_def default_processes_def addJob_def
      scheduleTasks_tick_def quotes_job_def BackgroundJobData_init_def shutdown_def drain_eq)

subsection \<open>Loading the backup\<close>

lemma load_backup_ok:
  "map (fromDict env) items = map Inr js \<Longrightarrow> load_backup env items q = (None, q @ js)"
  by (induction items arbitrary: q js) auto

lemma load_backup_None:
  "load_backup env items q = (None, q') \<Longrightarrow> \<exists>js. map (fromDict env) items = map Inr js"
proof (induction items arbitrary: q)
  case Nil
  then show ?case by simp
next
  case (Cons d items)
  then obtain j where j: "fromDict env d = Inr j"
    by (cases "fromDict env d") auto
  with Cons.prems have "load_backup env items (q @ [j]) = (None, q')" by simp
  from Cons.IH [OF this] obtain js where "map (fromDict env) items = map Inr js" ..
  with j have "map (fromDict env) (d # items) = map Inr (j # js)" by simp
  then show ?case ..
qed

text \<open>C3, as the code has it. \<^verbatim>\<open>loadJobs\<close> returns a bool, not a count: True exactly
  when the file holds a list that is not empty and whose entries all convert to jobs,
  and then these jobs stand behind the queue in the order of the file. A missing file,
  text that does not parse, a document that is no list and the empty list give False
  and leave the handler as it was. There is no exception among the results.\<close>

theorem loadJobs_returns_flag:
  "(map (fromDict env) items = map Inr js \<longrightarrow>
      loadJobs env h (Document (JArr items)) = (js \<noteq> [], h\<lparr>jobQueue := jobQueue h @ js\<rparr>)) \<and>
   (fst (loadJobs env h f) \<longrightarrow>
      (\<exists>items js. f = Document (JArr items) \<and> items \<noteq> [] \<and>
         map (fromDict env) items = map Inr js)) \<and>
   loadJobs env h Missing = (False, h) \<and>
   loadJobs env h Unparsable = (False, h) \<and>
   loadJobs env h (Document (JArr [])) = (False, h) \<and>
   ((\<forall>items. doc \<noteq> JArr items) \<longrightarrow> loadJobs env h (Document doc) = (False, h))"
proof (intro conjI impI)
  assume ok: "map (fromDict env) items = map Inr js"
  then have "length items = length js"
    by (metis length_map)
  with load_backup_ok [OF ok, of "jobQueue h"]
  show "loadJobs env h (Document (JArr items)) = (js \<noteq> [], h\<lparr>jobQueue := jobQueue h @ js\<rparr>)"
    by (auto simp: loadJobs_def)
next
  assume t: "fst (loadJobs env h f)"
  then obtain items where f: "f = Document (JArr items)" and ne: "items \<noteq> []"
    by (auto simp: loadJobs_def split: json_file.splits json.splits if_splits)
  with t obtain q where "load_backup env items (jobQueue h) = (None, q)"
    by (auto simp: loadJobs_def split: prod.splits option.splits)
  from load_backup_None [OF this] f ne
  show "\<exists>items js. f = Document (JArr items) \<and> items \<noteq> [] \<and>
          map (fromDict env) items = map Inr js"
    by blast
next
  assume "\<forall>items. doc \<noteq> JArr items"
  then show "loadJobs env h (Document doc) = (False, h)"
    by (cases doc) (auto simp: loadJobs_def)
qed (simp_all add: loadJobs_def)

theorem loadJobs_returns_flag_witness:
  "loadJobs \<lparr>utcnow = 5, uuid4 = ''n''\<rparr>
     \<lparr>parallelProcesses = 1, jobQueue = [], backgroundTasks = {}, shutdownRequest = False,
      task_cancelled = False, indicatorConfig = JNull\<rparr>
     (Document (JArr [asdict (quotes_job \<lparr>utcnow = 1, uuid4 = ''a''\<rparr> 7),
                      asdict (quotes_job \<lparr>utcnow = 2, uuid4 = ''b''\<rparr> 8)])) =
   (True,
    \<lparr>parallelProcesses = 1,
     jobQueue = [quotes_job \<lparr>utcnow = 1, uuid4 = ''a''\<rparr> 7, quotes_job \<lparr>utcnow = 2, uuid4 = ''b''\<rparr> 8],
     backgroundTasks = {}, shutdownRequest = False, task_cancelled = False,
     indicatorConfig = JNull\<rparr>)"
proof -
  let ?j1 = "quotes_job \<lparr>utcnow = 1, uuid4 = ''a''\<rparr> 7"
  let ?j2 = "quotes_job \<lparr>utcnow = 2, uuid4 = ''b''\<rparr> 8"
  let ?env = "\<lparr>utcnow = 5, uuid4 = ''n''\<rparr>"
  have ids: "timestamp ?j1 \<noteq> JNull" "uuid ?j1 \<noteq> JNull" "timestamp ?j2 \<noteq> JNull" "uuid ?j2 \<noteq> JNull"
    by (simp_all add: quotes_job_def BackgroundJobData_init_def)
  have ok: "map (fromDict ?env) [asdict ?j1, asdict ?j2] = map Inr [?j1, ?j2]"
    by (simp add: fromDict_asdict ids)
  show ?thesis
    using loadJobs_returns_flag [of ?env "[asdict ?j1, asdict ?j2]" "[?j1, ?j2]"] ok
    by simp
qed

text \<open>C3 as stated fails: with two jobs in the file two jobs are restored, and the
  value returned is True, which as a number is 1 and not the count 2.\<close>

theorem loadJobs_count_counterexample:
  "fst (loadJobs \<lparr>utcnow = 5, uuid4 = ''n''\<rparr>
       \<lparr>parallelProcesses = 1, jobQueue = [], backgroundTasks = {}, shutdownRequest = False,
        task_cancelled = False, indicatorConfig = JNull\<rparr>
       (Document (JArr [asdict (quotes_job \<lparr>utcnow = 1, uuid4 = ''a''\<rparr> 7),
                        asdict (quotes_job \<lparr>utcnow = 2, uuid4 = ''b''\<rparr> 8)]))) = True \<and>
   length (jobQueue (snd (loadJobs \<lparr>utcnow = 5, uuid4 = ''n''\<rparr>
       \<lparr>parallelProcesses = 1, jobQueue = [], backgroundTasks = {}, shutdownRequest = False,
        task_cancelled = False, indicatorConfig = JNull\<rparr>
       (Document (JArr [asdict (quotes_job \<lparr>utcnow = 1, uuid4 = ''a''\<rparr> 7),
                        asdict (quotes_job \<lparr>utcnow = 2, uuid4 = ''b''\<rparr> 8)]))))) = 2 \<and>
   (of_bool (fst (loadJobs \<lparr>utcnow = 5, uuid4 = ''n''\<rparr>
       \<lparr>parallelProcesses = 1, jobQueue = [], backgroundTasks = {}, shutdownRequest = False,
        task_cancelled = False, indicatorConfig = JNull\<rparr>
       (Document (JArr [asdict (quotes_job \<lparr>utcnow = 1, uuid4 = ''a''\<rparr> 7),
                        asdict (quotes_job \<lparr>utcnow = 2, uuid4 = ''b''\<rparr> 8)])))) :: nat) \<noteq>
   length (jobQueue (snd (loadJobs \<lparr>utcnow = 5, uuid4 = ''n''\<rparr>
       \<lparr>parallelProcesses = 1, jobQueue = [], backgroundTasks = {}, shutdownRequest = False,
        task_cancelled = False, indicatorConfig = JNull\<rparr>
       (Document (JArr [asdict (quotes_job \<lparr>utcnow = 1, uuid4 = ''a''\<rparr> 7),
                        asdict (quotes_job \<lparr>utcnow = 2, uuid4 = ''b''\<rparr> 8)])))))"
  by (simp add: loadJobs_def fromDict_def asdict_def bindE_def quotes_job_def
      BackgroundJobData_init_def)

subsection \<open>Shutdown and restart\<close>

lemma load_backup_asdict:
  "\<forall>j\<in>set js. timestamp j \<noteq> JNull \<and> uuid j \<noteq> JNull \<Longrightarrow>
   map (fromDict env) (map asdict js) = map Inr js"
  by (induction js) (auto simp: fromDict_asdict)

text \<open>C5. The jobs of a queue carry a timestamp and a uuid (\<^verbatim>\<open>__init__\<close> sets both,
  see \<open>BackgroundJobData_init_ids\<close>). When \<^verbatim>\<open>shutdown\<close> is called on such a queue and a
  handler built anew then calls \<^verbatim>\<open>loadJobs\<close> on the file \<^verbatim>\<open>shutdown\<close> left, its queue is
  the old queue: the same jobs, equal in all eight fields, in the same order.\<close>

theorem shutdown_restart_roundtrip:
  assumes "\<forall>j\<in>set (jobQueue h). timestamp j \<noteq> JNull \<and> uuid j \<noteq> JNull"
    and "backgroundTasks h = {}"
    and "TaskHandler_init py_int cpu ov cfg = Inr g"
  shows "\<exists>h' w'. shutdown fuel h w = Some (h', w') \<and> jobQueue h' = [] \<and>
           jobQueue (snd (loadJobs env g (jobs_json w'))) = jobQueue h"
proof -
  have g: "jobQueue g = []"
    using assms(3) by (auto simp: TaskHandler_init_def split: json_file.splits)
  let ?w = "w\<lparr>jobs_json := Document (JArr (map asdict (jobQueue h)))\<rparr>"
  let ?h = "h\<lparr>shutdownRequest := True, task_cancelled := True, jobQueue := []\<rparr>"
  have s: "shutdown fuel h w = Some (?h, ?w)"
    using assms(2) by (simp add: shutdown_def wait_tasks_empty drain_eq)
  have "map (fromDict env) (map asdict (jobQueue h)) = map Inr (jobQueue h)"
    by (rule load_backup_asdict [OF assms(1)])
  then have "load_backup env (map asdict (jobQueue h)) [] = (None, jobQueue h)"
    using load_backup_ok [of env "map asdict (jobQueue h)" "jobQueue h" "[]"] by simp
  then have "jobQueue (snd (loadJobs env g (jobs_json ?w))) = jobQueue h"
    using g by (cases "jobQueue h") (auto simp: loadJobs_def)
  with s show ?thesis by simp
qed

theorem shutdown_restart_roundtrip_witness:
  "\<exists>h' w'.
     shutdown 0
       \<lparr>parallelProcesses = 1,
        jobQueue = [quotes_job \<lparr>utcnow = 1, uuid4 = ''a''\<rparr> 7,
                    quotes_job \<lparr>utcnow = 2, uuid4 = ''b''\<rparr> 8,
                    quotes_job \<lparr>utcnow = 3, uuid4 = ''c''\<rparr> 9],
        backgroundTasks = {}, shutdownRequest = False, task_cancelled = False,
        indicatorConfig = JNull\<rparr>
       \<lparr>jobs_json = Missing, active_children = 0, started = [], polls = 0\<rparr> = Some (h', w') \<and>
     jobQueue h' = [] \<and>
     jobQueue (snd (loadJobs \<lparr>utcnow = 5, uuid4 = ''n''\<rparr>
        \<lparr>parallelProcesses = 1, jobQueue = [], backgroundTasks = {}, shutdownRequest = False,
         task_cancelled = False, indicatorConfig = JNull\<rparr> (jobs_json w'))) =
       [quotes_job \<lparr>utcnow = 1, uuid4 = ''a''\<rparr> 7,
        quotes_job \<lparr>utcnow = 2, uuid4 = ''b''\<rparr> 8,
        quotes_job \<lparr>utcnow = 3, uuid4 = ''c''\<rparr> 9]"
proof -
  let ?h = "\<lparr>parallelProcesses = 1,
        jobQueue = [quotes_job \<lparr>utcnow = 1, uuid4 = ''a''\<rparr> 7,
                    quotes_job \<lparr>utcnow = 2, uuid4 = ''b''\<rparr> 8,
                    quotes_job \<lparr>utcnow = 3, uuid4 = ''c''\<rparr> 9],
        backgroundTasks = {}, shutdownRequest = False, task_cancelled = False,
        indicatorConfig = JNull\<rparr>"
  have a: "\<forall>j\<in>set (jobQueue ?h). timestamp j \<noteq> JNull \<and> uuid j \<noteq> JNull"
    by (simp add: quotes_job_def BackgroundJobData_init_def)
  have b: "backgroundTasks ?h = {}" by simp
  have c: "TaskHandler_init (\<lambda>s. None) (Some 2) None (Document JNull) =
      Inr \<lparr>parallelProcesses = 1, jobQueue = [], backgroundTasks = {}, shutdownRequest = False,
         task_cancelled = False, indicatorConfig = JNull\<rparr>"
    by (simp add: TaskHandler_init_def parseInt_def default_processes_def)
  show ?thesis
    using shutdown_restart_roundtrip [OF a b c, of 0
        "\<lparr>jobs_json = Missing, active_children = 0, started = [], polls = 0\<rparr>"
        "\<lparr>utcnow = 5, uuid4 = ''n''\<rparr>"]
    by simp
qed

section \<open>Properties of parseParameters\<close>

lemma Decimal_of_str_snoc: "Decimal_of_str (s @ [c]) = 10 * Decimal_of_str s + digit_value c"
  by (simp add: Decimal_of_str_def)

lemma Decimal_of_str_positional:
  "Decimal_of_str s = (\<Sum>k<length s. digit_value (s ! k) * 10 ^ (length s - 1 - k))"
proof (induction s rule: rev_induct)
  case Nil
  then show ?case by (simp add: Decimal_of_str_def)
next
  case (snoc c s)
  have "(\<Sum>k<length s. digit_value ((s @ [c]) ! k) * 10 ^ (length s - k)) =
        (\<Sum>k<length s. 10 * (digit_value (s ! k) * 10 ^ (length s - 1 - k)))"
  proof (rule sum.cong)
    fix k assume "k \<in> {..<length s}"
    then have k: "k < length s" by simp
    then have "length s - k = Suc (length s - 1 - k)" by arith
    with k show "digit_value ((s @ [c]) ! k) * 10 ^ (length s - k) =
        10 * (digit_value (s ! k) * 10 ^ (length s - 1 - k))"
      by (simp add: nth_append)
  qed simp
  then show ?case
    by (simp add: Decimal_of_str_snoc snoc.IH sum_distrib_left)
qed

lemma isdecimal_iff: "isdecimal s \<longleftrightarrow> s \<noteq> [] \<and> (\<forall>c\<in>set s. c \<in> set ''0123456789'')"
  by (simp add: isdecimal_def list_all_iff)

text \<open>C8, as the code has it. The output has the keys of the input in their order. A
  value is turned into a \<^verbatim>\<open>Decimal\<close> exactly when it is a string that is not empty and
  holds digits only, and the \<^verbatim>\<open>Decimal\<close> is the number the digits denote; every other
  value, a string with a sign or a decimal point among them, is passed on as it is.\<close>

theorem parseParameters_digit_strings:
  "\<exists>out. parseParameters (JObj kvs) = Inr out \<and> map fst out = map fst kvs \<and>
     (\<forall>i<length kvs. snd (out ! i) =
        (case snd (kvs ! i) of
           JStr s \<Rightarrow>
             (if s \<noteq> [] \<and> (\<forall>c\<in>set s. c \<in> set ''0123456789'')
              then Decimal (\<Sum>k<length s. digit_value (s ! k) * 10 ^ (length s - 1 - k))
              else Plain (JStr s))
         | v \<Rightarrow> Plain v))"
proof -
  have "snd (map (\<lambda>(k, v). (k, parseValue v)) kvs ! i) =
        (case snd (kvs ! i) of
           JStr s \<Rightarrow>
             (if s \<noteq> [] \<and> (\<forall>c\<in>set s. c \<in> set ''0123456789'')
              then Decimal (\<Sum>k<length s. digit_value (s ! k) * 10 ^ (length s - 1 - k))
              else Plain (JStr s))
         | v \<Rightarrow> Plain v)" if "i < length kvs" for i
    using that
    by (cases "kvs ! i"; cases "snd (kvs ! i)")
       (simp_all add: parseValue_def isdecimal_iff Decimal_of_str_positional del: set_simps)
  moreover have "map fst (map (\<lambda>(k, v). (k, parseValue v)) kvs) = map fst kvs"
    by (induction kvs) auto
  ultimately show ?thesis by simp
qed

theorem parseParameters_digit_strings_witness:
  "\<exists>out. parseParameters (JObj [(''period'', JStr ''14''), (''source'', JStr ''close'')]) = Inr out \<and>
     map fst out = [''period'', ''source''] \<and>
     snd (out ! 0) = Decimal 14 \<and> snd (out ! 1) = Plain (JStr ''close'')"
proof -
  from parseParameters_digit_strings [of "[(''period'', JStr ''14''), (''source'', JStr ''close'')]"]
  obtain out where o: "parseParameters (JObj [(''period'', JStr ''14''), (''source'', JStr ''close'')]) = Inr out"
    and k: "map fst out = map fst [(''period'', JStr ''14''), (''source'', JStr ''close'')]"
    and v: "\<forall>i<length [(''period'', JStr ''14''), (''source'', JStr ''close'')]. snd (out ! i) =
        (case snd ([(''period'', JStr ''14''), (''source'', JStr ''close'')] ! i) of
           JStr s \<Rightarrow>
             (if s \<noteq> [] \<and> (\<forall>c\<in>set s. c \<in> set ''0123456789'')
              then Decimal (\<Sum>k<length s. digit_value (s ! k) * 10 ^ (length s - 1 - k))
              else Plain (JStr s))
         | v \<Rightarrow> Plain v)"
    by blast
  have "snd (out ! 0) = Decimal 14"
    using v [rule_format, of 0] by (simp add: digit_value_def lessThan_Suc)
  moreover have "snd (out ! 1) = Plain (JStr ''close'')"
    using v [rule_format, of 1] by simp
  ultimately show ?thesis using o k by simp
qed

text \<open>C8 as stated fails: the strings \<^verbatim>\<open>0.02\<close> and \<^verbatim>\<open>0.2\<close> are numeric and stay
  strings, since \<^verbatim>\<open>isdecimal\<close> is False on a decimal point.\<close>

theorem parseParameters_fraction_counterexample:
  "parseParameters (JObj [(''af'', JStr ''0.02''), (''max'', JStr ''0.2'')]) =
     Inr [(''af'', Plain (JStr ''0.02'')), (''max'', Plain (JStr ''0.2''))]"
  by (simp add: parseValue_def isdecimal_def)

section \<open>Properties of the indicator functions\<close>

subsection \<open>Frames and series\<close>

lemma nonneg_cases:
  assumes "nonneg v"
  obtains "v = NaN" | r where "v = Fin r" "0 \<le> r"
  using assms by (cases v) (auto simp: nonneg_def)

lemma nonneg_NaN [simp]: "nonneg NaN" by (simp add: nonneg_def)
lemma nonneg_Fin [simp]: "nonneg (Fin r) \<longleftrightarrow> 0 \<le> r" by (simp add: nonneg_def)

lemma get_col_set_col: "get_col (set_col k c df) k' = (if k' = k then Some c else get_col df k')"
proof -
  have "map_of (assign k c cols) k' = (if k' = k then Some c else map_of cols k')" for cols
    by (induction cols) auto
  then show ?thesis by (simp add: get_col_def set_col_def)
qed

lemma get_col_del_cols: "get_col (del_cols ks df) k' = (if k' \<in> set ks then None else get_col df k')"
proof -
  have *: "map_of (filter (\<lambda>(k, c). k \<notin> set ks) cols) k' = (if k' \<in> set ks then None else map_of cols k')" for cols
    by (induction cols) auto
  have "columns (del_cols ks df) = filter (\<lambda>(k, c). k \<notin> set ks) (columns df)"
    by (simp add: del_cols_def)
  then show ?thesis unfolding get_col_def by (simp only: *)
qed

lemma diff_from_finite:
  "isfinite p \<Longrightarrow> list_all isfinite xs \<Longrightarrow> list_all isfinite (diff_from p xs)"
  by (induction xs arbitrary: p) (auto simp: isfinite_def fsub_def split: fl.splits)

lemma pd_diff_finite:
  "list_all isfinite xs \<Longrightarrow> \<forall>c\<in>set (pd_diff xs). c = NaN \<or> isfinite c"
  using diff_from_finite by (cases xs) (auto simp: list_all_iff)

lemma gain_nonneg: "c = NaN \<or> isfinite c \<Longrightarrow> nonneg (if flt c (Fin 0) then Fin 0 else c)"
  by (cases c) (auto simp: isfinite_def)

lemma loss_nonneg: "c = NaN \<or> isfinite c \<Longrightarrow> nonneg (fneg (if fgt c (Fin 0) then Fin 0 else c))"
  by (cases c) (auto simp: isfinite_def fgt_def)

lemma gain_of_nonneg:
  assumes "list_all isfinite xs"
  shows "\<forall>v\<in>set (gain_of (pd_diff xs)). nonneg v"
proof
  fix v assume "v \<in> set (gain_of (pd_diff xs))"
  then obtain c where c: "c \<in> set (pd_diff xs)" and v: "v = (if flt c (Fin 0) then Fin 0 else c)"
    by (auto simp: gain_of_def)
  from c pd_diff_finite [OF assms] have "c = NaN \<or> isfinite c" by blast
  then show "nonneg v" unfolding v by (rule gain_nonneg)
qed

lemma loss_of_nonneg:
  assumes "list_all isfinite xs"
  shows "\<forall>v\<in>set (loss_of (pd_diff xs)). nonneg v"
proof
  fix v assume "v \<in> set (loss_of (pd_diff xs))"
  then obtain c where c: "c \<in> set (pd_diff xs)" and v: "v = fneg (if fgt c (Fin 0) then Fin 0 else c)"
    by (auto simp: loss_of_def)
  from c pd_diff_finite [OF assms] have "c = NaN \<or> isfinite c" by blast
  then show "nonneg v" unfolding v by (rule loss_nonneg)
qed

lemma np_index_less: "np_index n i = Inr k \<Longrightarrow> k < n"
  by (auto simp: np_index_def split: if_splits)

lemma foldl_fadd_nonneg:
  "nonneg acc \<Longrightarrow> \<forall>v\<in>set xs. nonneg v \<Longrightarrow> nonneg (foldl fadd acc xs)"
proof (induction xs arbitrary: acc)
  case Nil then show ?case by simp
next
  case (Cons x xs)
  have "nonneg (fadd acc x)"
    using Cons.prems by (cases acc; cases x) (auto simp: nonneg_def)
  with Cons show ?case by simp
qed

lemma np_mean_nonneg: "\<forall>v\<in>set xs. nonneg v \<Longrightarrow> nonneg (np_mean xs)"
proof -
  assume "\<forall>v\<in>set xs. nonneg v"
  then have "nonneg (foldl fadd (Fin 0) xs)" by (intro foldl_fadd_nonneg) auto
  then show ?thesis
    unfolding np_mean_def by (cases "foldl fadd (Fin 0) xs") (auto simp: nonneg_def signed_inf_def)
qed

lemma set_py_slice: "set (py_slice xs lo hi) \<subseteq> set xs"
  unfolding py_slice_def by (meson set_drop_subset set_take_subset subset_trans)

lemma step_nonneg:
  "1 \<le> n \<Longrightarrow> nonneg p \<Longrightarrow> nonneg x \<Longrightarrow>
   nonneg (fdiv (fadd (fmul p (fl_of_int (n - 1))) x) (fl_of_int n))"
  by (cases p; cases x) (auto simp: nonneg_def fl_of_int_def)

lemma step_NaN: "fdiv (fadd (fmul NaN c) x) d = NaN"
  by simp

lemma rma_loop_nonneg:
  "1 \<le> n \<Longrightarrow> \<forall>v\<in>set x. nonneg v \<Longrightarrow> \<forall>v\<in>set a. nonneg v \<Longrightarrow>
   rma_loop n x is a = Inr a' \<Longrightarrow> \<forall>v\<in>set a'. nonneg v"
proof (induction "is" arbitrary: a)
  case Nil then show ?case by simp
next
  case (Cons i "is")
  from Cons.prems(4) obtain p q r where
    p: "np_index (length a) (i - 1) = Inr p" and q: "np_index (length x) i = Inr q"
    and r: "np_index (length a) i = Inr r"
    and rest: "rma_loop n x is
         (a[r := fdiv (fadd (fmul (a ! p) (fl_of_int (n - 1))) (x ! q)) (fl_of_int n)]) = Inr a'"
    by (auto simp: bindE_def split: sum.splits)
  have "nonneg (a ! p)" "nonneg (x ! q)"
    using np_index_less [OF p] np_index_less [OF q] Cons.prems(2,3) by auto
  then have "nonneg (fdiv (fadd (fmul (a ! p) (fl_of_int (n - 1))) (x ! q)) (fl_of_int n))"
    using step_nonneg Cons.prems(1) by blast
  then have "\<forall>v\<in>set (a[r := fdiv (fadd (fmul (a ! p) (fl_of_int (n - 1))) (x ! q)) (fl_of_int n)]). nonneg v"
    using Cons.prems(3) set_update_subset_insert by fastforce
  from Cons.IH [OF Cons.prems(1,2) this rest] show ?case .
qed

lemma rma_loop_NaN:
  "\<forall>v\<in>set a. v = NaN \<Longrightarrow> rma_loop n x is a = Inr a' \<Longrightarrow> \<forall>v\<in>set a'. v = NaN"
proof (induction "is" arbitrary: a)
  case Nil then show ?case by simp
next
  case (Cons i "is")
  from Cons.prems(2) obtain p q r where
    p: "np_index (length a) (i - 1) = Inr p" and q: "np_index (length x) i = Inr q"
    and r: "np_index (length a) i = Inr r"
    and rest: "rma_loop n x is
         (a[r := fdiv (fadd (fmul (a ! p) (fl_of_int (n - 1))) (x ! q)) (fl_of_int n)]) = Inr a'"
    by (auto simp: bindE_def split: sum.splits)
  have "a ! p = NaN"
    using np_index_less [OF p] Cons.prems(1) by auto
  then have "\<forall>v\<in>set (a[r := fdiv (fadd (fmul (a ! p) (fl_of_int (n - 1))) (x ! q)) (fl_of_int n)]). v = NaN"
    using Cons.prems(1) set_update_subset_insert [of a r] by fastforce
  from Cons.IH [OF this rest] show ?case .
qed

lemma list_update_all:
  "P v \<Longrightarrow> \<forall>u\<in>set xs. P u \<Longrightarrow> \<forall>u\<in>set (xs[k := v]). P u"
  using set_update_subset_insert [of xs k v] by auto

lemma rma_unfold:
  "rma x n = bindE (np_index (length x) n) (\<lambda>k.
     rma_loop n x [n + 1..int (length x) - 1]
       ((replicate (length x) NaN)[k := np_mean (py_slice x 1 (n + 1))]))"
  unfolding rma_def Let_def length_replicate ..

lemma bindE_Inr: "bindE m f = Inr a \<Longrightarrow> \<exists>k. m = Inr k \<and> f k = Inr a"
  by (cases m) (simp_all add: bindE_def)

lemma rma_Inr:
  assumes "rma x n = Inr a"
  shows "\<exists>k. rma_loop n x [n + 1..int (length x) - 1]
       ((replicate (length x) NaN)[k := np_mean (py_slice x 1 (n + 1))]) = Inr a"
proof -
  from assms have "bindE (np_index (length x) n) (\<lambda>k.
     rma_loop n x [n + 1..int (length x) - 1]
       ((replicate (length x) NaN)[k := np_mean (py_slice x 1 (n + 1))])) = Inr a"
    by (simp only: rma_unfold)
  from bindE_Inr [OF this] show ?thesis by blast
qed

lemma py_slice_empty: "py_slice x 1 1 = []"
  by (simp add: py_slice_def)

lemma np_mean_Nil: "np_mean [] = NaN"
  by (simp add: np_mean_def)

lemma np_mean_slice_nonneg:
  assumes "\<forall>v\<in>set x. nonneg v"
  shows "nonneg (np_mean (py_slice x lo hi))"
proof (rule np_mean_nonneg, rule ballI)
  fix v assume "v \<in> set (py_slice x lo hi)"
  with set_py_slice [of x lo hi] have "v \<in> set x" by (rule rev_subsetD [rotated])
  with assms show "nonneg v" by (rule bspec)
qed

lemma rma_nonneg:
  assumes "0 \<le> n" "\<forall>v\<in>set x. nonneg v" "rma x n = Inr a"
  shows "\<forall>v\<in>set a. nonneg v"
proof -
  from rma_Inr [OF assms(3)] obtain k where
    loop: "rma_loop n x [n + 1..int (length x) - 1]
       ((replicate (length x) NaN)[k := np_mean (py_slice x 1 (n + 1))]) = Inr a" ..
  show ?thesis
  proof (cases "n = 0")
    case True
    have "np_mean (py_slice x 1 (n + 1)) = NaN"
      unfolding True by (simp only: add_0 py_slice_empty np_mean_Nil)
    then have "\<forall>v\<in>set ((replicate (length x) NaN)[k := np_mean (py_slice x 1 (n + 1))]). v = NaN"
      by (intro list_update_all) simp_all
    from rma_loop_NaN [OF this loop] show ?thesis by auto
  next
    case False
    with assms(1) have n: "1 \<le> n" by simp
    have "nonneg (np_mean (py_slice x 1 (n + 1)))"
      by (rule np_mean_slice_nonneg [OF assms(2)])
    then have "\<forall>v\<in>set ((replicate (length x) NaN)[k := np_mean (py_slice x 1 (n + 1))]). nonneg v"
      by (intro list_update_all) simp_all
    from rma_loop_nonneg [OF n assms(2) this loop] show ?thesis .
  qed
qed

lemma rma_loop_length: "rma_loop n x is a = Inr a' \<Longrightarrow> length a' = length a"
proof (induction "is" arbitrary: a)
  case Nil then show ?case by simp
next
  case (Cons i "is")
  from Cons.prems obtain p q r where
    rest: "rma_loop n x is
         (a[r := fdiv (fadd (fmul (a ! p) (fl_of_int (n - 1))) (x ! q)) (fl_of_int n)]) = Inr a'"
    by (auto simp: bindE_def split: sum.splits)
  from Cons.IH [OF rest] show ?case by simp
qed

lemma rma_loop_append:
  "rma_loop n x (is1 @ is2) a = bindE (rma_loop n x is1 a) (rma_loop n x is2)"
proof (induction is1 arbitrary: a)
  case Nil then show ?case by (simp add: bindE_def)
next
  case (Cons i is1)
  show ?case
    by (cases "np_index (length a) (i - 1)"; cases "np_index (length x) i";
        cases "np_index (length a) i") (simp_all add: bindE_def Cons.IH)
qed

lemma sweep_step: "fdiv (fadd (fmul p c) NaN) d = NaN"
  by (cases "fmul p c") simp_all

lemma rma_sweep:
  assumes "length a = length x" "k \<le> length x" "x \<noteq> []" "x ! 0 = NaN"
    and "\<forall>j<k. a ! j = NaN"
    and "rma_loop n x [int k..int (length x) - 1] a = Inr a'"
  shows "\<forall>v\<in>set a'. v = NaN"
  using assms
proof (induction "length x - k" arbitrary: k a)
  case 0
  then have k: "k = length x" by simp
  with "0.prems" have "a' = a" by simp
  with "0.prems"(1,5) k show ?case by (auto simp: in_set_conv_nth)
next
  case (Suc m)
  then have kl: "k < length x" by simp
  then have up: "[int k..int (length x) - 1] = int k # [int (Suc k)..int (length x) - 1]"
    by (simp add: upto_rec1 add.commute)
  let ?L = "length x"
  obtain p where p: "np_index (length a) (int k - 1) = Inr p"
    using kl Suc.prems(1) by (cases k) (auto simp: np_index_def)
  have q: "np_index ?L (int k) = Inr k" using kl by (simp add: np_index_def)
  have r: "np_index (length a) (int k) = Inr k" using kl Suc.prems(1) by (simp add: np_index_def)
  let ?v = "fdiv (fadd (fmul (a ! p) (fl_of_int (n - 1))) (x ! k)) (fl_of_int n)"
  have v: "?v = NaN"
  proof (cases k)
    case 0
    with Suc.prems(4) show ?thesis by (simp add: sweep_step)
  next
    case (Suc j)
    with p kl Suc.prems(1) have "p = j" by (auto simp: np_index_def split: if_splits)
    with Suc Suc.prems(5) have "a ! p = NaN" by simp
    then show ?thesis by simp
  qed
  from Suc.prems(6) have rest: "rma_loop n x [int (Suc k)..int ?L - 1] (a[k := NaN]) = Inr a'"
    unfolding up by (simp add: p q r bindE_def v)
  have "\<forall>j<Suc k. (a[k := NaN]) ! j = NaN"
    using Suc.prems(5) kl Suc.prems(1) by (auto simp: nth_list_update less_Suc_eq)
  moreover have "m = ?L - Suc k" using Suc.hyps(2) by simp
  moreover have "length (a[k := NaN]) = ?L" using Suc.prems(1) by simp
  moreover have "Suc k \<le> ?L" using kl by simp
  ultimately show ?case
    using Suc.hyps(1) [of "Suc k" "a[k := NaN]"] Suc.prems(3,4) rest by blast
qed

lemma rma_negative:
  assumes "n < 0" "x \<noteq> [] \<longrightarrow> x ! 0 = NaN" "rma x n = Inr a"
  shows "\<forall>v\<in>set a. v = NaN"
proof -
  from rma_Inr [OF assms(3)] obtain k where
    loop: "rma_loop n x [n + 1..int (length x) - 1]
       ((replicate (length x) NaN)[k := np_mean (py_slice x 1 (n + 1))]) = Inr a" ..
  let ?a0 = "(replicate (length x) NaN)[k := np_mean (py_slice x 1 (n + 1))]"
  from assms(3) obtain k' where "np_index (length x) n = Inr k'"
    unfolding rma_unfold by (cases "np_index (length x) n") (simp_all add: bindE_def)
  with assms(1) have ne: "x \<noteq> []" and nl: "- int (length x) \<le> n"
    by (auto simp: np_index_def split: if_splits)
  have "[n + 1..int (length x) - 1] = [n + 1..0 - 1] @ [0..int (length x) - 1]"
    using assms(1) ne by (intro upto_split1) (simp_all add: Suc_leI)
  with loop have "bindE (rma_loop n x [n + 1..0 - 1] ?a0)
      (rma_loop n x [0..int (length x) - 1]) = Inr a"
    by (simp only: rma_loop_append)
  from bindE_Inr [OF this] obtain a1 where
    a1: "rma_loop n x [n + 1..0 - 1] ?a0 = Inr a1"
    and sw: "rma_loop n x [0..int (length x) - 1] a1 = Inr a" by blast
  from rma_loop_length [OF a1] have len: "length a1 = length x" by simp
  from sw have sw': "rma_loop n x [int 0..int (length x) - 1] a1 = Inr a" by simp
  from rma_sweep [OF len _ ne _ _ sw'] assms(2) ne show ?thesis by simp
qed

lemma rma_nonneg_any:
  assumes "\<forall>v\<in>set x. nonneg v" "x \<noteq> [] \<longrightarrow> x ! 0 = NaN" "rma x n = Inr a"
  shows "\<forall>v\<in>set a. nonneg v"
proof (cases "n < 0")
  case True
  from rma_negative [OF True assms(2,3)] show ?thesis by auto
next
  case False
  then have "0 \<le> n" by simp
  from rma_nonneg [OF this assms(1,3)] show ?thesis .
qed

lemma gain_of_head: "xs \<noteq> [] \<longrightarrow> gain_of (pd_diff xs) ! 0 = NaN"
  by (cases xs) (simp_all add: gain_of_def)

lemma loss_of_head: "xs \<noteq> [] \<longrightarrow> loss_of (pd_diff xs) ! 0 = NaN"
  by (cases xs) (simp_all add: loss_of_def fgt_def)

lemma pd_diff_Nil_iff: "pd_diff xs = [] \<longleftrightarrow> xs = []"
  by (cases xs) simp_all

lemma rsi_of_range:
  assumes "nonneg g" "nonneg l" "rsi_of (fdiv g l) \<noteq> NaN"
  shows "\<exists>v. rsi_of (fdiv g l) = Fin v \<and> 0 \<le> v \<and> v \<le> 100"
proof -
  from assms(1) show ?thesis
  proof (cases rule: nonneg_cases)
    case 1 with assms(3) show ?thesis by (simp add: rsi_of_def fsub_def)
  next
    case (2 a)
    from assms(2) show ?thesis
    proof (cases rule: nonneg_cases)
      case 1 with 2 assms(3) show ?thesis by (simp add: rsi_of_def fsub_def)
    next
      case b: (2 b)
      show ?thesis
      proof (cases "b = 0")
        case True
        with 2 b assms(3) show ?thesis
          by (auto simp: rsi_of_def fsub_def signed_inf_def split: if_splits)
      next
        case False
        with b have bp: "0 < b" by simp
        have q: "0 \<le> a / b" using 2 bp by simp
        then have "100 / (1 + a / b) \<le> 100 / 1"
          by (intro frac_le) simp_all
        moreover have "0 \<le> 100 / (1 + a / b)"
          using q by (intro divide_nonneg_nonneg) simp_all
        ultimately have "100 / (1 + a / b) \<le> 100" "0 \<le> 100 / (1 + a / b)"
          by simp_all
        
        moreover have "1 + a / b \<noteq> 0" using q by simp
        ultimately show ?thesis using 2 b False
          by (simp add: rsi_of_def fsub_def)
      qed
    qed
  qed
qed

lemma set_map2_fdiv:
  assumes "v \<in> set (map2 f xs ys)"
  obtains g l where "g \<in> set xs" "l \<in> set ys" "v = f g l"
  using assms by (auto dest: set_zip_leftD set_zip_rightD)

text \<open>C7. Let the source column hold finite prices. Then every entry of the \<^verbatim>\<open>rsi\<close>
  column that \<^verbatim>\<open>RSI\<close> computes, for whatever period, is NaN (not defined) or a number
  from 0 to 100. Arithmetic is exact: the rounding of float64 is not modelled, a division
  by zero gives an infinity or NaN as numpy has it. No hypothesis asks the prices to
  vary or the series to be longer than the period: on a series that is too short the
  column holds None and no number.\<close>

theorem RSI_in_range:
  assumes src: "get_col df src = Some (Floats xs)"
    and fin: "list_all isfinite xs"
    and period: "int_of_pyval py_int (kwarg params ''period'' (Decimal 14)) = Inr N"
    and source: "kwarg params ''source'' (Plain (JStr ''close'')) = Plain (JStr src)"
    and run: "RSI py_int df params = Inr r"
    and col: "get_col (r_frame r) ''rsi'' = Some (Floats ys)"
    and y: "y \<in> set ys" "y \<noteq> NaN"
  shows "\<exists>v. y = Fin v \<and> 0 \<le> v \<and> v \<le> 100"
proof -
  have sc: "source_column df (Plain (JStr src)) = Inr xs"
    using src by (simp add: source_column_def)
  from run have kw: "bind_kwargs [''period'', ''source''] [] params = Inr ()"
    by (cases "bind_kwargs [''period'', ''source''] [] params") (simp_all add: RSI_def bindE_def)
  show ?thesis
  proof (cases "int (len df) > N")
    case False
    with run kw period source have "r = succeeded [''rsi''] (set_none ''rsi'' df)"
      by (simp add: RSI_def bindE_def)
    with col show ?thesis
      by (simp add: succeeded_def set_none_def get_col_set_col)
  next
    case True
    let ?gain = "gain_of (pd_diff xs)" and ?loss = "loss_of (pd_diff xs)"
    obtain ag where ag: "rma ?gain N = Inr ag"
      using run kw period source sc True
      by (cases "rma ?gain N")
         (simp_all add: RSI_def bindE_def Let_def RSI_except_def catch_def failed_def col
            get_col_set_col set_none_def split: exn.splits,
          (use col in \<open>auto simp: get_col_set_col set_none_def failed_def split: exn.splits\<close>)?)
    obtain al where al: "rma ?loss N = Inr al"
      using run kw period source sc True ag
      by (cases "rma ?loss N")
         (simp_all add: RSI_def bindE_def Let_def RSI_except_def catch_def failed_def col
            get_col_set_col set_none_def split: exn.splits,
          (use col in \<open>auto simp: get_col_set_col set_none_def failed_def split: exn.splits\<close>)?)
    from run kw period source sc True ag al
    have "get_col (r_frame r) ''rsi'' = Some (Floats (map rsi_of (map2 fdiv ag al)))"
      by (auto simp: RSI_def bindE_def Let_def succeeded_def get_col_set_col get_col_del_cols)
    with col have ys: "ys = map rsi_of (map2 fdiv ag al)"
      by simp
    from y(1) obtain rs where rs: "rs \<in> set (map2 fdiv ag al)" and yv: "y = rsi_of rs"
      unfolding ys by auto
    from rs obtain g l where gl: "g \<in> set ag" "l \<in> set al" "rs = fdiv g l"
      by (rule set_map2_fdiv)
    have gh: "gain_of (pd_diff xs) \<noteq> [] \<longrightarrow> gain_of (pd_diff xs) ! 0 = NaN"
      using gain_of_head [of xs] by (simp add: gain_of_def pd_diff_Nil_iff)
    have lh: "loss_of (pd_diff xs) \<noteq> [] \<longrightarrow> loss_of (pd_diff xs) ! 0 = NaN"
      using loss_of_head [of xs] by (simp add: loss_of_def pd_diff_Nil_iff)
    have "nonneg g"
      using rma_nonneg_any [OF gain_of_nonneg [OF fin] gh ag] gl(1) by blast
    moreover have "nonneg l"
      using rma_nonneg_any [OF loss_of_nonneg [OF fin] lh al] gl(2) by blast
    ultimately show ?thesis
      using rsi_of_range [of g l] y(2) unfolding yv gl(3) by blast
  qed
qed

theorem RSI_in_range_witness:
  "RSI (\<lambda>s. None)
     \<lparr>index = [0, 1, 2, 3], columns = [(''close'', Floats [Fin 1, Fin 2, Fin 1, Fin 3])]\<rparr>
     [(''period'', Decimal 2)] =
   Inr (succeeded [''rsi'']
     \<lparr>index = [0, 1, 2, 3],
      columns = [(''close'', Floats [Fin 1, Fin 2, Fin 1, Fin 3]),
                 (''rsi'', Floats [NaN, NaN, Fin 50, Fin (250 / 3)])]\<rparr>) \<and>
   (\<exists>v. Fin (250 / 3) = Fin v \<and> 0 \<le> v \<and> v \<le> 100)"
proof -
  let ?df = "\<lparr>index = [0, 1, 2, 3], columns = [(''close'', Floats [Fin 1, Fin 2, Fin 1, Fin 3])]\<rparr>"
  let ?r = "succeeded [''rsi'']
     \<lparr>index = [0, 1, 2, 3],
      columns = [(''close'', Floats [Fin 1, Fin 2, Fin 1, Fin 3]),
                 (''rsi'', Floats [NaN, NaN, Fin 50, Fin (250 / 3)])]\<rparr>"
  have run: "RSI (\<lambda>s. None) ?df [(''period'', Decimal 2)] = Inr ?r"
    by code_simp
  have src: "get_col ?df ''close'' = Some (Floats [Fin 1, Fin 2, Fin 1, Fin 3])"
    by (simp add: get_col_def)
  have fin: "list_all isfinite [Fin 1, Fin 2, Fin 1, Fin 3]"
    by (simp add: isfinite_def)
  have period: "int_of_pyval (\<lambda>s. None) (kwarg [(''period'', Decimal 2)] ''period'' (Decimal 14)) = Inr 2"
    by (simp add: int_of_pyval_def kwarg_def)
  have source: "kwarg [(''period'', Decimal 2)] ''source'' (Plain (JStr ''close'')) = Plain (JStr ''close'')"
    by (simp add: kwarg_def)
  have col: "get_col (r_frame ?r) ''rsi'' = Some (Floats [NaN, NaN, Fin 50, Fin (250 / 3)])"
    by (simp add: succeeded_def get_col_def)
  have "\<exists>v. Fin (250 / 3) = Fin v \<and> 0 \<le> v \<and> v \<le> 100"
    by (rule RSI_in_range [OF src fin period source run col]) simp_all
  with run show ?thesis by blast
qed

subsection \<open>Slope and SimpleMovingAverage\<close>















section \<open>Properties of resampleDataFrame\<close>

lemma argsort_sorted: "sorted ds \<Longrightarrow> argsort ds = [0..<length ds]"
  unfolding argsort_def by (rule sort_key_id_if_sorted) (simp add: map_nth)

lemma Min_sorted: "sorted ds \<Longrightarrow> ds \<noteq> [] \<Longrightarrow> Min (set ds) = hd ds"
  by (cases ds) (auto intro!: Min_eqI)

lemma Max_sorted:
  assumes "sorted ds" "ds \<noteq> []"
  shows "Max (set ds) = last ds"
proof (rule Max_eqI)
  show "finite (set ds)" by simp
  show "last ds \<in> set ds" using assms(2) by simp
  fix y assume y: "y \<in> set ds"
  from assms(2) have ds: "ds = butlast ds @ [last ds]" by simp
  with assms(1) have "sorted (butlast ds @ [last ds])" by simp
  then have "\<forall>x\<in>set (butlast ds). x \<le> last ds" by (simp add: sorted_append)
  moreover from y ds have "y \<in> set (butlast ds) \<or> y = last ds"
    by (metis Un_iff insert_iff list.set(2) set_append empty_iff empty_set)
  ultimately show "y \<le> last ds" by auto
qed

lemma bins_sorted:
  assumes "sorted (map q_date rows)" "rows \<noteq> []"
  shows "bins key (map q_date rows) = [key (q_date (hd rows))..key (q_date (last rows))]"
proof -
  from assms have "Min (set (map q_date rows)) = q_date (hd rows)"
    using Min_sorted [of "map q_date rows"] by (simp add: hd_map)
  moreover from assms have "Max (set (map q_date rows)) = q_date (last rows)"
    using Max_sorted [of "map q_date rows"] by (simp add: last_map)
  ultimately show ?thesis using assms(2) by (simp add: bins_def)
qed

lemma filter_indices:
  "map (\<lambda>i. f (rows ! i)) (filter (\<lambda>i. P (rows ! i)) [0..<length rows]) = map f (filter P rows)"
proof -
  have "filter P rows = filter P (map (nth rows) [0..<length rows])"
    by (simp add: map_nth)
  also have "\<dots> = map (nth rows) (filter (P \<circ> nth rows) [0..<length rows])"
    by (rule filter_map)
  finally show ?thesis by (simp add: comp_def)
qed

lemma bin_values:
  assumes "sorted (map q_date rows)"
  shows "map (\<lambda>i. map f rows ! i) (bin_rows key (map q_date rows) k) =
         map f (filter (\<lambda>q. key (q_date q) = k) rows)"
proof -
  let ?sel = "filter (\<lambda>i. key (q_date (rows ! i)) = k) [0..<length rows]"
  have "bin_rows key (map q_date rows) k =
        filter (\<lambda>i. key (map q_date rows ! i) = k) [0..<length rows]"
    using argsort_sorted [OF assms] by (simp add: bin_rows_def)
  also have "\<dots> = ?sel"
    by (rule filter_cong) simp_all
  finally have b: "bin_rows key (map q_date rows) k = ?sel" .
  have "map (\<lambda>i. map f rows ! i) ?sel = map (\<lambda>i. f (rows ! i)) ?sel"
    by (rule map_cong) simp_all
  also have "\<dots> = map f (filter (\<lambda>q. key (q_date q) = k) rows)"
    by (rule filter_indices)
  finally show ?thesis unfolding b .
qed

lemma isfinite_the_real: "isfinite v \<Longrightarrow> v = Fin (the_real v)"
  by (cases v) (simp_all add: isfinite_def the_real_def)

lemma finite_values:
  assumes "\<forall>q\<in>set rs. isfinite (f q)"
  shows "map f rs = map Fin (map (\<lambda>q. the_real (f q)) rs)"
  using assms by (induction rs) (auto dest: isfinite_the_real)

lemma notnan_present: "filter notnan (map f rs) = map f (present f rs)"
  by (induction rs) (simp_all add: present_def notnan_def)

lemma present_values:
  assumes "\<forall>q\<in>set rs. f q = NaN \<or> isfinite (f q)"
  shows "filter notnan (map f rs) = map Fin (map (\<lambda>q. the_real (f q)) (present f rs))"
proof -
  from assms have "\<forall>q\<in>set (present f rs). isfinite (f q)"
    by (auto simp: present_def)
  from finite_values [OF this] show ?thesis
    by (simp only: notnan_present)
qed

lemma foldl_fmax_Fin: "foldl fmax (Fin a) (map Fin xs) = Fin (fold max xs a)"
  by (induction xs arbitrary: a) (auto simp: fmax_def max_def)

lemma foldl_fmin_Fin: "foldl fmin (Fin a) (map Fin xs) = Fin (fold min xs a)"
  by (induction xs arbitrary: a) (auto simp: fmin_def min_def)

lemma foldl_fadd_Fin: "foldl fadd (Fin a) (map Fin xs) = Fin (a + sum_list xs)"
  by (induction xs arbitrary: a) (simp_all add: add.assoc)

lemma aggregate_First:
  assumes "\<forall>q\<in>set rs. f q = NaN \<or> isfinite (f q)"
  shows "aggregate First (map f rs) = spec_first f rs"
  by (cases "present f rs") (simp_all add: aggregate_def notnan_present spec_first_def)

lemma aggregate_Last:
  assumes "\<forall>q\<in>set rs. f q = NaN \<or> isfinite (f q)"
  shows "aggregate Last (map f rs) = spec_last f rs"
  by (cases "present f rs" rule: rev_cases)
    (simp_all add: aggregate_def notnan_present spec_last_def)

lemma aggregate_Max:
  assumes "\<forall>q\<in>set rs. f q = NaN \<or> isfinite (f q)"
  shows "aggregate Max_agg (map f rs) = spec_max f rs"
proof (cases "present f rs")
  case Nil
  then show ?thesis by (simp add: aggregate_def notnan_present spec_max_def)
next
  case (Cons r rs')
  let ?g = "\<lambda>q. the_real (f q)"
  have "filter notnan (map f rs) = Fin (?g r) # map Fin (map ?g rs')"
    unfolding present_values [OF assms] Cons by simp
  then have "aggregate Max_agg (map f rs) = foldl fmax (Fin (?g r)) (map Fin (map ?g rs'))"
    by (simp only: aggregate_def aggfn.case list.case)
  also have "\<dots> = Fin (Max (set (?g r # map ?g rs')))"
    by (simp only: foldl_fmax_Fin Max.set_eq_fold)
  also have "\<dots> = spec_max f rs"
    unfolding spec_max_def Cons by simp
  finally show ?thesis .
qed

lemma aggregate_Min:
  assumes "\<forall>q\<in>set rs. f q = NaN \<or> isfinite (f q)"
  shows "aggregate Min_agg (map f rs) = spec_min f rs"
proof (cases "present f rs")
  case Nil
  then show ?thesis by (simp add: aggregate_def notnan_present spec_min_def)
next
  case (Cons r rs')
  let ?g = "\<lambda>q. the_real (f q)"
  have "filter notnan (map f rs) = Fin (?g r) # map Fin (map ?g rs')"
    unfolding present_values [OF assms] Cons by simp
  then have "aggregate Min_agg (map f rs) = foldl fmin (Fin (?g r)) (map Fin (map ?g rs'))"
    by (simp only: aggregate_def aggfn.case list.case)
  also have "\<dots> = Fin (Min (set (?g r # map ?g rs')))"
    by (simp only: foldl_fmin_Fin Min.set_eq_fold)
  also have "\<dots> = spec_min f rs"
    unfolding spec_min_def Cons by simp
  finally show ?thesis .
qed

lemma aggregate_Sum:
  assumes "\<forall>q\<in>set rs. f q = NaN \<or> isfinite (f q)"
  shows "aggregate Sum_agg (map f rs) = spec_sum f rs"
proof -
  have "aggregate Sum_agg (map f rs) = foldl fadd (Fin 0) (filter notnan (map f rs))"
    by (simp only: aggregate_def aggfn.case)
  then show ?thesis
    unfolding present_values [OF assms] foldl_fadd_Fin spec_sum_def by simp
qed

lemma last_date_Some: "last_date (map (\<lambda>q. Some (q_date q)) rs) = spec_last_date rs"
  by (cases rs rule: rev_cases) (simp_all add: last_date_def spec_last_date_def)

text \<open>The sum of a bin is exact when the volumes are whole and the whole history adds
  up to no more than \<open>2 ^ 53\<close>.\<close>

lemma magnitude_nonneg: "0 \<le> magnitude v"
  by (cases v) (simp_all add: magnitude_def)

lemma magnitude_filter:
  "sum_list (map (\<lambda>q. magnitude (f q)) (filter P rs)) \<le> sum_list (map (\<lambda>q. magnitude (f q)) rs)"
proof (induction rs)
  case Nil then show ?case by simp
next
  case (Cons r rs)
  with magnitude_nonneg [of "f r"] show ?case by (simp add: add_increasing)
qed

lemma whole_isfinite: "whole v \<Longrightarrow> isfinite v"
  by (cases v) (simp_all add: whole_def isfinite_def)

lemma exact_sum_bucket:
  fixes f :: "quote \<Rightarrow> fl"
  assumes w: "\<forall>q\<in>set rows. f q = NaN \<or> whole (f q)"
    and b: "sum_list (map (\<lambda>q. magnitude (f q)) rows) \<le> 2 ^ 53"
  shows "exact_sum (map f (filter P rows))"
proof -
  let ?rs = "present f (filter P rows)"
  have "\<forall>q\<in>set ?rs. whole (f q)"
    using w by (auto simp: present_def)
  then have 1: "list_all whole (map f ?rs)"
    by (simp add: list_all_iff)
  have "sum_list (map (\<lambda>q. magnitude (f q)) ?rs) \<le>
        sum_list (map (\<lambda>q. magnitude (f q)) (filter P rows))"
    unfolding present_def by (rule magnitude_filter)
  also have "\<dots> \<le> sum_list (map (\<lambda>q. magnitude (f q)) rows)"
    by (rule magnitude_filter)
  finally have "sum_list (map (\<lambda>q. magnitude (f q)) ?rs) \<le> 2 ^ 53"
    using b by simp
  then have 2: "sum_list (map magnitude (map f ?rs)) \<le> 2 ^ 53"
    by (simp add: comp_def)
  from 1 2 show ?thesis
    by (simp only: exact_sum_def notnan_present)
qed

lemma resample_floats:
  assumes "sorted (map q_date rows)" "rows \<noteq> []"
    and ok: "\<forall>q\<in>set rows. f q = NaN \<or> isfinite (f q)"
    and ex: "\<And>P. fn = Sum_agg \<longrightarrow> exact_sum (map f (filter P rows))"
    and agg: "\<And>rs. \<forall>q\<in>set rs. f q = NaN \<or> isfinite (f q) \<Longrightarrow> aggregate fn (map f rs) = g rs"
  shows "resample_column (bucket_key interval) (map q_date rows) fn (Floats (map f rows)) =
         Inr (Floats (map g (buckets interval rows)))"
proof -
  let ?key = "bucket_key interval"
  have a: "aggregate fn (map (\<lambda>i. map f rows ! i) (bin_rows ?key (map q_date rows) k)) =
        g (filter (\<lambda>q. ?key (q_date q) = k) rows)" for k
    unfolding bin_values [OF assms(1)] using ok by (intro agg) simp
  have e: "fn = Sum_agg \<longrightarrow>
        exact_sum (map (\<lambda>i. map f rows ! i) (bin_rows ?key (map q_date rows) k))" for k
    unfolding bin_values [OF assms(1)] by (rule ex)
  show ?thesis
    using assms(2)
    by (simp add: resample_column_def bins_sorted [OF assms(1,2)] buckets_def comp_def a e
        list_all_iff)
qed

lemma resample_dates:
  assumes "sorted (map q_date rows)" "rows \<noteq> []"
  shows "resample_column (bucket_key interval) (map q_date rows) Last
           (Dates (map (\<lambda>q. Some (q_date q)) rows)) =
         Inr (Dates (map spec_last_date (buckets interval rows)))"
proof -
  let ?key = "bucket_key interval"
  have "last_date (map (\<lambda>i. map (\<lambda>q. Some (q_date q)) rows ! i)
            (bin_rows ?key (map q_date rows) k)) =
        spec_last_date (filter (\<lambda>q. ?key (q_date q) = k) rows)" for k
    unfolding bin_values [OF assms(1)] by (rule last_date_Some)
  then show ?thesis
    using assms(2)
    by (simp add: resample_column_def bins_sorted [OF assms(1,2)] buckets_def comp_def)
qed

lemma length_buckets:
  "sorted (map q_date rows) \<Longrightarrow> rows \<noteq> [] \<Longrightarrow>
   length (bins (bucket_key interval) (map q_date rows)) = length (buckets interval rows)"
  by (simp add: bins_sorted buckets_def)

text \<open>The label of a week is its last day, and the index \<^verbatim>\<open>agg\<close> returns holds the labels:
  it is \<^verbatim>\<open>df.index = range(len(df))\<close> that numbers the rows.\<close>

lemma week_label_last_day: "week_key (week_label k) = k \<and> week_key (week_label k + 1) = k + 1"
  by (simp add: week_key_def week_label_def)

lemma agg_index_is_labels:
  "map_sum id index (resample_agg (bucket_key WEEKLY) (bucket_label WEEKLY) (daily_frame gap_quotes))
     = Inr [3, 10, 17] \<and>
   map_sum id index (resample_agg (bucket_key MONTHLY) (bucket_label MONTHLY) (daily_frame gap_quotes))
     = Inr [30]"
  by code_simp

text \<open>C6, as the code has it. Let the daily rows be in the order of their dates, let
  there be at least one, let every price be a finite number or missing and every volume a
  whole number or missing, the volumes adding up to no more than \<open>2 ^ 53\<close>, and let the
  interval be weekly or monthly. Then \<^verbatim>\<open>resampleDataFrame\<close> gives one row for every week or
  month from the first to the last, numbered 0 to N-1 in the place of the labels of the
  bins, with the open of the first daily row of the bucket that holds one, the greatest
  high and the least low among the rows that hold one, the close of the last row that
  holds one, the split-adjusted fields likewise, the adjusted close of the last row that
  holds one, the sum of the volumes that are there and the date of the last row. A
  bucket where no row holds a value of a field has NaN there, and the volume 0; a week or
  month without a daily row is a row too, with NaN prices, no date and the volume 0.\<close>

theorem resample_is_bucket_aggregation:
  assumes srt: "sorted (map q_date rows)"
    and ne: "rows \<noteq> []"
    and st: "\<forall>q\<in>set rows. stored_quote q"
    and vol: "total_volume rows \<le> 2 ^ 53"
    and iv: "interval = WEEKLY \<or> interval = MONTHLY"
  shows "resampleDataFrame (daily_frame rows) interval = Inr (spec_resampled interval rows)"
proof -
  let ?df = "daily_frame rows"
  let ?ds = "map q_date rows"
  let ?key = "bucket_key interval"
  let ?label = "bucket_label interval"
  have f: "\<forall>q\<in>set rows. q_open q = NaN \<or> isfinite (q_open q)"
    "\<forall>q\<in>set rows. q_high q = NaN \<or> isfinite (q_high q)"
    "\<forall>q\<in>set rows. q_low q = NaN \<or> isfinite (q_low q)"
    "\<forall>q\<in>set rows. q_close q = NaN \<or> isfinite (q_close q)"
    "\<forall>q\<in>set rows. q_split_adjusted_open q = NaN \<or> isfinite (q_split_adjusted_open q)"
    "\<forall>q\<in>set rows. q_split_adjusted_high q = NaN \<or> isfinite (q_split_adjusted_high q)"
    "\<forall>q\<in>set rows. q_split_adjusted_low q = NaN \<or> isfinite (q_split_adjusted_low q)"
    "\<forall>q\<in>set rows. q_split_adjusted_close q = NaN \<or> isfinite (q_split_adjusted_close q)"
    "\<forall>q\<in>set rows. q_adjusted_close q = NaN \<or> isfinite (q_adjusted_close q)"
    using st by (simp_all add: stored_quote_def)
  have w: "\<forall>q\<in>set rows. q_volume q = NaN \<or> whole (q_volume q)"
    using st by (simp add: stored_quote_def)
  then have fv: "\<forall>q\<in>set rows. q_volume q = NaN \<or> isfinite (q_volume q)"
    by (auto dest: whole_isfinite)
  have ex: "Sum_agg = Sum_agg \<longrightarrow> exact_sum (map q_volume (filter P rows))" for P
    using exact_sum_bucket [OF w, of P] vol by (simp add: total_volume_def)
  have ns: "First = Sum_agg \<longrightarrow> exact_sum (map h (filter P rows))"
    "Last = Sum_agg \<longrightarrow> exact_sum (map h (filter P rows))"
    "Max_agg = Sum_agg \<longrightarrow> exact_sum (map h (filter P rows))"
    "Min_agg = Sum_agg \<longrightarrow> exact_sum (map h (filter P rows))" for h P
    by simp_all
  note cols =
    resample_dates [OF srt ne, of interval]
    resample_floats [where g = "spec_first q_open" and interval = interval,
      OF srt ne f(1) ns(1) aggregate_First]
    resample_floats [where g = "spec_max q_high" and interval = interval,
      OF srt ne f(2) ns(3) aggregate_Max]
    resample_floats [where g = "spec_min q_low" and interval = interval,
      OF srt ne f(3) ns(4) aggregate_Min]
    resample_floats [where g = "spec_last q_close" and interval = interval,
      OF srt ne f(4) ns(2) aggregate_Last]
    resample_floats [where g = "spec_first q_split_adjusted_open" and interval = interval,
      OF srt ne f(5) ns(1) aggregate_First]
    resample_floats [where g = "spec_max q_split_adjusted_high" and interval = interval,
      OF srt ne f(6) ns(3) aggregate_Max]
    resample_floats [where g = "spec_min q_split_adjusted_low" and interval = interval,
      OF srt ne f(7) ns(4) aggregate_Min]
    resample_floats [where g = "spec_last q_split_adjusted_close" and interval = interval,
      OF srt ne f(8) ns(2) aggregate_Last]
    resample_floats [where g = "spec_last q_adjusted_close" and interval = interval,
      OF srt ne f(9) ns(2) aggregate_Last]
    resample_floats [where g = "spec_sum q_volume" and interval = interval,
      OF srt ne fv ex aggregate_Sum]
  have rc: "resample_columns ?key ?ds ?df agg_spec = Inr (columns (spec_resampled interval rows))"
    using ne
    by (simp add: agg_spec_def get_col_def daily_frame_def cols bindE_def spec_resampled_def
        Let_def)
  have ra: "resample_agg ?key ?label ?df =
      Inr \<lparr>index = map ?label (bins ?key ?ds),
           columns = columns (spec_resampled interval rows)\<rparr>"
  proof -
    have "get_col ?df ''date'' = Some (Dates (map (\<lambda>q. Some (q_date q)) rows))"
      using ne by (simp add: get_col_def daily_frame_def)
    moreover have "list_all (\<lambda>c. get_col ?df c \<noteq> None) (map fst agg_spec)"
      using ne by (simp add: agg_spec_def get_col_def daily_frame_def)
    moreover have "len ?df = length rows"
      using ne by (simp add: len_def daily_frame_def)
    moreover have "map the (map (\<lambda>q. Some (q_date q)) rows) = ?ds"
      by simp
    ultimately show ?thesis
      using rc by (simp add: resample_agg_def bindE_def list_all_iff del: map_map)
  qed
  have "\<lparr>index = map ?label (bins ?key ?ds), columns = columns (spec_resampled interval rows)\<rparr>
          \<lparr>index := map int [0..<len \<lparr>index = map ?label (bins ?key ?ds),
                                      columns = columns (spec_resampled interval rows)\<rparr>]\<rparr> =
        spec_resampled interval rows"
    using length_buckets [OF srt ne, of interval]
    by (simp add: len_def spec_resampled_def Let_def)
  with iv ra show ?thesis
    unfolding resampleDataFrame_def bindE_def by auto
qed

theorem resample_is_bucket_aggregation_witness:
  "resampleDataFrame (daily_frame gap_quotes) WEEKLY = Inr (spec_resampled WEEKLY gap_quotes) \<and>
   spec_resampled WEEKLY gap_quotes =
     \<lparr>index = [0, 1, 2],
      columns =
        [(''date'', Dates [Some 1, None, Some 15]),
         (''open'', Floats [Fin 6, NaN, Fin 5]),
         (''high'', Floats [Fin 6, NaN, Fin 5]),
         (''low'', Floats [Fin 4, NaN, Fin 5]),
         (''close'', Floats [Fin 4, NaN, Fin 5]),
         (''split_adjusted_open'', Floats [Fin 4, NaN, Fin 5]),
         (''split_adjusted_high'', Floats [Fin 6, NaN, Fin 5]),
         (''split_adjusted_low'', Floats [Fin 4, NaN, Fin 5]),
         (''split_adjusted_close'', Floats [Fin 6, NaN, Fin 5]),
         (''adjusted_close'', Floats [Fin 6, NaN, Fin 5]),
         (''volume'', Floats [Fin 10, Fin 0, Fin 5])]\<rparr>"
proof -
  have srt: "sorted (map q_date gap_quotes)" by code_simp
  have ne: "gap_quotes \<noteq> []" by code_simp
  have st: "\<forall>q\<in>set gap_quotes. stored_quote q" by code_simp
  have vol: "total_volume gap_quotes \<le> 2 ^ 53" by code_simp
  have iv: "WEEKLY = WEEKLY \<or> WEEKLY = MONTHLY" by simp
  have v: "spec_resampled WEEKLY gap_quotes =
     \<lparr>index = [0, 1, 2],
      columns =
        [(''date'', Dates [Some 1, None, Some 15]),
         (''open'', Floats [Fin 6, NaN, Fin 5]),
         (''high'', Floats [Fin 6, NaN, Fin 5]),
         (''low'', Floats [Fin 4, NaN, Fin 5]),
         (''close'', Floats [Fin 4, NaN, Fin 5]),
         (''split_adjusted_open'', Floats [Fin 4, NaN, Fin 5]),
         (''split_adjusted_high'', Floats [Fin 6, NaN, Fin 5]),
         (''split_adjusted_low'', Floats [Fin 4, NaN, Fin 5]),
         (''split_adjusted_close'', Floats [Fin 6, NaN, Fin 5]),
         (''adjusted_close'', Floats [Fin 6, NaN, Fin 5]),
         (''volume'', Floats [Fin 10, Fin 0, Fin 5])]\<rparr>"
    by code_simp
  from resample_is_bucket_aggregation [OF srt ne st vol iv] v show ?thesis by blast
qed

text \<open>C6, as the specification words it: the open of a resampled row is the open of the
  first daily row of the bucket and its close the close of the last. In the first week
  of this history the first row has no open and the last row no close, and the row of
  the week has the open of the second row and the close of the first.\<close>

theorem resample_missing_value_counterexample:
  "map_sum id (\<lambda>df. map (get_col df) [''open'', ''close''])
     (resampleDataFrame (daily_frame gap_quotes) WEEKLY) =
     Inr [Some (Floats [Fin 6, NaN, Fin 5]), Some (Floats [Fin 4, NaN, Fin 5])] \<and>
   hd (buckets WEEKLY gap_quotes) = take 2 gap_quotes \<and>
   q_open (hd (take 2 gap_quotes)) = NaN \<and>
   q_close (last (take 2 gap_quotes)) = NaN"
  by code_simp

section \<open>Properties of the pipeline\<close>

text \<open>C9. When the database answers and holds fewer than ten quotes for the security,
  \<^verbatim>\<open>calculateMultiprocessing\<close> and \<^verbatim>\<open>calculate\<close> both return True and leave the database
  as it was: nothing is written to the table of indicators.\<close>

theorem short_history_no_write:
  assumes "available db" "length (quotes db i) < 10"
  shows "fst (calculateMultiprocessing reg i config db) = Inr (True, db) \<and>
         fst (calculate reg i config db) = Inr (True, db)"
  using assms
  by (simp add: calculateMultiprocessing_def calculate_def fetch_quotes_def Let_def)

theorem short_history_no_write_witness:
  "fst (calculateMultiprocessing (indicators_py (\<lambda>s. None)) 1
         (JObj [(''securities'', JArr [slope_entry ''close'' ''close_slope''])])
         \<lparr>available = True, quotes = (\<lambda>i. take 9 ten_quotes), indicators = (\<lambda>k. None)\<rparr>) =
     Inr (True, \<lparr>available = True, quotes = (\<lambda>i. take 9 ten_quotes), indicators = (\<lambda>k. None)\<rparr>) \<and>
   fst (calculate (indicators_py (\<lambda>s. None)) 1
         (JObj [(''securities'', JArr [slope_entry ''close'' ''close_slope''])])
         \<lparr>available = True, quotes = (\<lambda>i. take 9 ten_quotes), indicators = (\<lambda>k. None)\<rparr>) =
     Inr (True, \<lparr>available = True, quotes = (\<lambda>i. take 9 ten_quotes), indicators = (\<lambda>k. None)\<rparr>)"
proof -
  let ?db = "\<lparr>available = True, quotes = (\<lambda>i. take 9 ten_quotes), indicators = (\<lambda>k. None)\<rparr>"
  have a: "available ?db" by simp
  have b: "length (quotes ?db 1) < 10" by (simp add: ten_quotes_def)
  show ?thesis
    by (rule short_history_no_write [OF a b])
qed

lemma mp_loop_append:
  "calculateMultiprocessing_loop reg (pre @ rest) dfs lg =
     (case calculateMultiprocessing_loop reg pre dfs lg of
        (Inr (Some dfs'), lg') \<Rightarrow> calculateMultiprocessing_loop reg rest dfs' lg'
      | other \<Rightarrow> other)"
proof (induction pre arbitrary: dfs lg)
  case Nil
  then show ?case by simp
next
  case (Cons obj pre)
  show ?case
  proof (cases "apply_entry reg dfs obj")
    case (Inl e)
    then show ?thesis by simp
  next
    case (Inr res)
    then show ?thesis
      by (cases res; cases "fst res") (simp_all add: Cons.IH)
  qed
qed

lemma calculate_goes_on:
  "apply_entry reg dfs obj = Inr (False, dfs') \<Longrightarrow>
   calculate_loop reg (obj # post) dfs lg =
     calculate_loop reg post dfs'
       (lg @ [(DEBUG, Calculate_indicator obj), (WARNING, Not_successful obj)])"
  by simp

text \<open>C1. In \<^verbatim>\<open>calculateMultiprocessing\<close>, the function the worker process runs, an
  indicator that reports failure ends the run: the warning is logged, the function
  returns False, the entries configured after it (\<open>post\<close>) are not run and nothing is
  written. The hypotheses say that the history has ten rows or more, that resampling
  works, that the entries before (\<open>pre\<close>) succeed and that the entry \<open>obj\<close> reports
  failure. The loop of \<^verbatim>\<open>calculate\<close> goes on after the same failure
  (\<open>calculate_goes_on\<close>).\<close>

theorem failure_ends_worker_run:
  assumes "available db"
    and "10 \<le> length (quotes db i)"
    and "resampleDataFrame (daily_frame (sort_key q_date (quotes db i))) WEEKLY = Inr dfWeekly"
    and "resampleDataFrame (daily_frame (sort_key q_date (quotes db i))) MONTHLY = Inr dfMonthly"
    and "getitem config ''securities'' = Inr (JArr (pre @ obj # post))"
    and "calculateMultiprocessing_loop reg pre
           [daily_frame (sort_key q_date (quotes db i)), dfWeekly, dfMonthly]
           [(INFO, Calculate_start), (DEBUG, Got_quotes (length (quotes db i)))] =
         (Inr (Some dfs), lg)"
    and "apply_entry reg dfs obj = Inr (False, dfs')"
  shows "calculateMultiprocessing reg i config db =
           (Inr (False, db),
            lg @ [(DEBUG, Calculate_indicator obj), (WARNING, Not_successful obj)])"
proof -
  let ?rows = "sort_key q_date (quotes db i)"
  let ?lg = "[(INFO, Calculate_start), (DEBUG, Got_quotes (length (quotes db i)))]"
  have loop: "calculateMultiprocessing_loop reg (pre @ obj # post)
           [daily_frame ?rows, dfWeekly, dfMonthly] ?lg =
      (Inr None, lg @ [(DEBUG, Calculate_indicator obj), (WARNING, Not_successful obj)])"
    by (simp add: mp_loop_append assms(6,7))
  have body: "calculateMultiprocessing_body reg i config ?rows db ?lg =
      (Inr (False, db), lg @ [(DEBUG, Calculate_indicator obj), (WARNING, Not_successful obj)])"
    unfolding calculateMultiprocessing_body_def Let_def
    by (simp add: assms(3,4,5) bindE_def iterate_def loop)
  show ?thesis
    unfolding calculateMultiprocessing_def Let_def fetch_quotes_def
    using assms(1,2) body by simp
qed

theorem failure_ends_worker_run_witness:
  "calculateMultiprocessing (indicators_py (\<lambda>s. None)) 1
     (JObj [(''securities'',
             JArr [slope_entry ''close'' ''close_slope'', slope_entry ''nope'' ''nope_slope'',
                   slope_entry ''high'' ''high_slope''])])
     \<lparr>available = True, quotes = (\<lambda>i. ten_quotes), indicators = (\<lambda>k. None)\<rparr> =
   (Inr (False, \<lparr>available = True, quotes = (\<lambda>i. ten_quotes), indicators = (\<lambda>k. None)\<rparr>),
    [(INFO, Calculate_start), (DEBUG, Got_quotes 10),
     (DEBUG, Calculate_indicator (slope_entry ''close'' ''close_slope'')),
     (DEBUG, Calculate_indicator (slope_entry ''nope'' ''nope_slope'')),
     (WARNING, Not_successful (slope_entry ''nope'' ''nope_slope''))])"
proof -
  let ?db = "\<lparr>available = True, quotes = (\<lambda>i. ten_quotes), indicators = (\<lambda>k. None)\<rparr>"
  let ?reg = "indicators_py (\<lambda>s. None)"
  let ?e1 = "slope_entry ''close'' ''close_slope''"
  let ?e2 = "slope_entry ''nope'' ''nope_slope''"
  let ?e3 = "slope_entry ''high'' ''high_slope''"
  let ?config = "JObj [(''securities'', JArr [?e1, ?e2, ?e3])]"
  let ?X = "daily_frame ten_quotes"
  let ?W = "\<lparr>index = [0, 1],
      columns =
        [(''date'', Dates [Some 3, Some 9]),
         (''open'', Floats [Fin 1, Fin 5]),
         (''high'', Floats [Fin 4, Fin 10]),
         (''low'', Floats [Fin 1, Fin 5]),
         (''close'', Floats [Fin 4, Fin 10]),
         (''split_adjusted_open'', Floats [Fin 1, Fin 5]),
         (''split_adjusted_high'', Floats [Fin 4, Fin 10]),
         (''split_adjusted_low'', Floats [Fin 1, Fin 5]),
         (''split_adjusted_close'', Floats [Fin 4, Fin 10]),
         (''adjusted_close'', Floats [Fin 4, Fin 10]),
         (''volume'', Floats [Fin 10, Fin 45])]\<rparr>"
  let ?M = "\<lparr>index = [0],
      columns =
        [(''date'', Dates [Some 9]),
         (''open'', Floats [Fin 1]),
         (''high'', Floats [Fin 10]),
         (''low'', Floats [Fin 1]),
         (''close'', Floats [Fin 10]),
         (''split_adjusted_open'', Floats [Fin 1]),
         (''split_adjusted_high'', Floats [Fin 10]),
         (''split_adjusted_low'', Floats [Fin 1]),
         (''split_adjusted_close'', Floats [Fin 10]),
         (''adjusted_close'', Floats [Fin 10]),
         (''volume'', Floats [Fin 55])]\<rparr>"
  let ?X1 = "?X\<lparr>columns := columns ?X @ [(''close_slope'', Bools (False # replicate 9 True))]\<rparr>"
  let ?X2 = "?X1\<lparr>columns := columns ?X1 @ [(''slope'', Objects (replicate 10 CNone))]\<rparr>"
  have srt: "sort_key q_date (quotes ?db 1) = ten_quotes" by code_simp
  have a: "available ?db" by simp
  have b: "10 \<le> length (quotes ?db 1)" by code_simp
  have w: "resampleDataFrame (daily_frame (sort_key q_date (quotes ?db 1))) WEEKLY = Inr ?W"
    unfolding srt by code_simp
  have m: "resampleDataFrame (daily_frame (sort_key q_date (quotes ?db 1))) MONTHLY = Inr ?M"
    unfolding srt by code_simp
  have cfg: "getitem ?config ''securities'' = Inr (JArr ([?e1] @ ?e2 # [?e3]))" by simp
  have len: "length (quotes ?db 1) = 10" by code_simp
  have first: "apply_entry ?reg [?X, ?W, ?M] ?e1 = Inr (True, [?X1, ?W, ?M])"
    by code_simp
  have loop: "calculateMultiprocessing_loop ?reg [?e1]
       [daily_frame (sort_key q_date (quotes ?db 1)), ?W, ?M]
       [(INFO, Calculate_start), (DEBUG, Got_quotes (length (quotes ?db 1)))] =
      (Inr (Some [?X1, ?W, ?M]),
       [(INFO, Calculate_start), (DEBUG, Got_quotes 10), (DEBUG, Calculate_indicator ?e1)])"
    unfolding srt len by (simp add: first)
  have fail: "apply_entry ?reg [?X1, ?W, ?M] ?e2 = Inr (False, [?X2, ?W, ?M])"
    by code_simp
  from failure_ends_worker_run [OF a b w m cfg loop fail] show ?thesis by simp
qed

end
